theory Spec2Isabelle
  imports Complex_Main "HOL-Library.Multiset" "HOL-Library.Char_ord" "HOL-Library.List_Lexorder"
    "HOL-Library.Log_Nat"
begin

section \<open>Line sorters of Sorters.h\<close>

text \<open>
  The file \<^verbatim>\<open>PowerEditor/src/MISC/Common/Sorters.h\<close> declares the interface
  \<^verbatim>\<open>ISorter\<close>, the \<^verbatim>\<open>LexicographicSorter\<close>, the class template
  \<^verbatim>\<open>NumericSorter<T_Num>\<close> and its three instances. A \<^verbatim>\<open>generic_string\<close> is
  modelled as a \<^typ>\<open>string\<close>; the order of characters is the order of their codes
  (\<^verbatim>\<open>Char_ord\<close>) and the order of strings is the lexicographic one
  (\<^verbatim>\<open>List_Lexorder\<close>), which is what \<^verbatim>\<open>basic_string::compare\<close> computes.

  A call of \<^verbatim>\<open>sort\<close> either returns the reordered lines or throws the index of a
  line: the outcome is a value of \<^typ>\<open>nat + string list\<close>, \<^term>\<open>Inl\<close> the thrown
  index.
\<close>

type_synonym generic_string = string
type_synonym outcome = "nat + generic_string list"

subsection \<open>The C++ library\<close>

text \<open>
  \<^verbatim>\<open>std::sort(first, last, comp)\<close>: the standard promises that the range holds the
  same elements afterwards and is sorted with respect to \<^verbatim>\<open>comp\<close> (no element is
  \<^verbatim>\<open>comp\<close>-less than an element before it). It does not promise that equivalent
  elements keep their order; that is \<^verbatim>\<open>std::stable_sort\<close>. The model is therefore
  a relation between the range before and after the call: every list the contract
  admits is a possible result.
\<close>

definition std_sort :: "('a \<Rightarrow> 'a \<Rightarrow> bool) \<Rightarrow> 'a list \<Rightarrow> 'a list \<Rightarrow> bool" where
  "std_sort cmp xs ys \<longleftrightarrow> mset ys = mset xs \<and> sorted_wrt (\<lambda>a b. \<not> cmp b a) ys"

text \<open>\<^verbatim>\<open>a.compare(b)\<close>: negative, zero or positive.\<close>

definition compare :: "generic_string \<Rightarrow> generic_string \<Rightarrow> int" where
  "compare a b = (if a < b then - 1 else if a = b then 0 else 1)"

text \<open>
  \<^verbatim>\<open>input.find_first_not_of(chars)\<close>: the position of the first character of
  \<^verbatim>\<open>input\<close> that is not in \<^verbatim>\<open>chars\<close>; \<^verbatim>\<open>npos\<close> is \<^term>\<open>None\<close>.
\<close>

fun find_first_not_of :: "generic_string \<Rightarrow> generic_string \<Rightarrow> nat option" where
  "find_first_not_of [] chars = None"
| "find_first_not_of (c # cs) chars =
     (if c \<in> set chars then map_option Suc (find_first_not_of cs chars) else Some 0)"

text \<open>The characters \<^verbatim>\<open>" \t\r\n"\<close> of the source's literals.\<close>

definition whitespace :: generic_string where
  "whitespace = [CHR '' '', CHR 0x09, CHR 0x0D, CHR 0x0A]"

text \<open>\<^verbatim>\<open>isspace\<close> in the C locale: space, \<^verbatim>\<open>\t \n \v \f \r\<close>.\<close>

definition isspace :: "char \<Rightarrow> bool" where
  "isspace c \<longleftrightarrow> c \<in> set [CHR '' '', CHR 0x09, CHR 0x0A, CHR 0x0B, CHR 0x0C, CHR 0x0D]"

definition isdigit :: "char \<Rightarrow> bool" where
  "isdigit c \<longleftrightarrow> c \<in> set ''0123456789''"

definition digit_value :: "char \<Rightarrow> nat" where
  "digit_value c = of_char c - 48"

definition digits_value :: "string \<Rightarrow> nat" where
  "digits_value ds = foldl (\<lambda>acc c. 10 * acc + digit_value c) 0 ds"

text \<open>
  The optional sign that \<^verbatim>\<open>strtoll\<close> and \<^verbatim>\<open>strtod\<close> accept after the leading
  white space: whether the number is negated, and the rest of the text.
\<close>

fun strip_sign :: "string \<Rightarrow> bool \<times> string" where
  "strip_sign [] = (False, [])"
| "strip_sign (c # cs) =
     (if c = CHR ''-'' then (True, cs) else if c = CHR ''+'' then (False, cs) else (False, c # cs))"

text \<open>
  \<^verbatim>\<open>std::stoll(str)\<close> (base 10, the position argument left out): \<^verbatim>\<open>strtoll\<close> skips
  leading white space, reads an optional sign and the longest run of digits, and ignores
  whatever follows. \<^verbatim>\<open>stoll\<close> throws \<^verbatim>\<open>std::invalid_argument\<close> when there is no
  digit to read and \<^verbatim>\<open>std::out_of_range\<close> when the value does not fit a
  \<^verbatim>\<open>long long\<close>; both are \<^term>\<open>None\<close> here.
\<close>

definition stoll :: "generic_string \<Rightarrow> int option" where
  "stoll str =
     (let (negative, rest) = strip_sign (dropWhile isspace str);
          digits = takeWhile isdigit rest
      in if digits = [] then None
         else let v = (if negative then - int (digits_value digits) else int (digits_value digits))
              in if v < - (2 ^ 63) \<or> 2 ^ 63 - 1 < v then None else Some v)"

subsection \<open>An implementation of \<^verbatim>\<open>std::sort\<close>\<close>

text \<open>
  The contract leaves the order of equivalent elements open; what a run shows is the
  order that the library at hand computes. This is \<^verbatim>\<open>std::sort\<close> as GNU libstdc++
  implements it (\<^verbatim>\<open>bits/stl_algo.h\<close>, \<^verbatim>\<open>bits/stl_heap.h\<close>): an introsort that
  partitions ranges of more than 16 elements around a median of three, falls back to
  heap sort when its depth limit is used up, and finishes with an insertion sort. The
  range is a list, an iterator is an index into it, and every function returns the
  list after its writes.
\<close>

definition iter_swap :: "'a list \<Rightarrow> nat \<Rightarrow> nat \<Rightarrow> 'a list" where
  "iter_swap xs a b = xs[a := xs ! b, b := xs ! a]"

definition move_median_to_first ::
  "('a \<Rightarrow> 'a \<Rightarrow> bool) \<Rightarrow> 'a list \<Rightarrow> nat \<Rightarrow> nat \<Rightarrow> nat \<Rightarrow> nat \<Rightarrow> 'a list" where
  "move_median_to_first cmp xs result a b c =
     (if cmp (xs ! a) (xs ! b)
      then (if cmp (xs ! b) (xs ! c) then iter_swap xs result b
            else if cmp (xs ! a) (xs ! c) then iter_swap xs result c
            else iter_swap xs result a)
      else if cmp (xs ! a) (xs ! c) then iter_swap xs result a
      else if cmp (xs ! b) (xs ! c) then iter_swap xs result c
      else iter_swap xs result b)"

text \<open>
  The two inner loops of \<^verbatim>\<open>__unguarded_partition\<close>. The source does not test the
  bounds of the range: the pivot is a median, so an element that stops the scan lies
  inside the range. The tests \<open>first < length xs\<close> and \<open>0 < last_it\<close> make the functions
  total and decide nothing when \<open>cmp\<close> is a strict weak order.
\<close>

function scan_forward :: "('a \<Rightarrow> 'a \<Rightarrow> bool) \<Rightarrow> 'a list \<Rightarrow> nat \<Rightarrow> nat \<Rightarrow> nat" where
  "scan_forward cmp xs first pivot =
     (if first < length xs \<and> cmp (xs ! first) (xs ! pivot)
      then scan_forward cmp xs (Suc first) pivot else first)"
  by pat_completeness auto
termination
  by (relation "measure (\<lambda>(cmp, xs, first, pivot). length xs - first)") auto

declare scan_forward.simps [simp del]

function scan_backward :: "('a \<Rightarrow> 'a \<Rightarrow> bool) \<Rightarrow> 'a list \<Rightarrow> nat \<Rightarrow> nat \<Rightarrow> nat" where
  "scan_backward cmp xs last_it pivot =
     (if 0 < last_it \<and> cmp (xs ! pivot) (xs ! last_it)
      then scan_backward cmp xs (last_it - 1) pivot else last_it)"
  by pat_completeness auto
termination
  by (relation "measure (\<lambda>(cmp, xs, last_it, pivot). last_it)") auto

declare scan_backward.simps [simp del]

lemma scan_forward_ge: "first \<le> scan_forward cmp xs first pivot"
  by (induction cmp xs first pivot rule: scan_forward.induct)
     (subst scan_forward.simps, auto)

lemma scan_backward_le: "scan_backward cmp xs last_it pivot \<le> last_it"
  by (induction cmp xs last_it pivot rule: scan_backward.induct)
     (subst scan_backward.simps, auto)

text \<open>\<^verbatim>\<open>__unguarded_partition\<close>: the cut and the range after the swaps.\<close>

function unguarded_partition ::
  "('a \<Rightarrow> 'a \<Rightarrow> bool) \<Rightarrow> 'a list \<Rightarrow> nat \<Rightarrow> nat \<Rightarrow> nat \<Rightarrow> nat \<times> 'a list" where
  "unguarded_partition cmp xs first last_it pivot =
     (let first' = scan_forward cmp xs first pivot;
          last_it' = scan_backward cmp xs (last_it - 1) pivot
      in if \<not> first' < last_it' then (first', xs)
         else unguarded_partition cmp (iter_swap xs first' last_it') (Suc first') last_it' pivot)"
  by pat_completeness auto
termination
proof (relation "measure (\<lambda>(cmp, xs, first, last_it, pivot). last_it - first)", goal_cases)
  case 1
  show ?case by simp
next
  case (2 cmp xs first last_it pivot first' last_it')
  with scan_forward_ge[of first cmp xs pivot] scan_backward_le[of cmp xs "last_it - 1" pivot]
  show ?case by simp
qed

declare unguarded_partition.simps [simp del]

definition unguarded_partition_pivot ::
  "('a \<Rightarrow> 'a \<Rightarrow> bool) \<Rightarrow> 'a list \<Rightarrow> nat \<Rightarrow> nat \<Rightarrow> nat \<times> 'a list" where
  "unguarded_partition_pivot cmp xs first last_it =
     (let mid = first + (last_it - first) div 2;
          xs' = move_median_to_first cmp xs first (first + 1) mid (last_it - 1)
      in unguarded_partition cmp xs' (first + 1) last_it first)"

text \<open>
  The heap functions of \<^verbatim>\<open>bits/stl_heap.h\<close>. Indices into the heap count from
  \<open>first\<close>. The source computes them in a signed type; the only place where that
  differs from the natural numbers, \<open>(len - 2) / 2\<close> for an empty heap, is excluded by
  the test \<open>2 \<le> len\<close>.
\<close>

function push_heap ::
  "('a \<Rightarrow> 'a \<Rightarrow> bool) \<Rightarrow> 'a list \<Rightarrow> nat \<Rightarrow> nat \<Rightarrow> nat \<Rightarrow> 'a \<Rightarrow> 'a list" where
  "push_heap cmp xs first holeIndex topIndex val =
     (let parent = (holeIndex - 1) div 2
      in if topIndex < holeIndex \<and> cmp (xs ! (first + parent)) val
         then push_heap cmp (xs[first + holeIndex := xs ! (first + parent)]) first parent
                topIndex val
         else xs[first + holeIndex := val])"
  by pat_completeness auto
termination
  by (relation "measure (\<lambda>(cmp, xs, first, holeIndex, topIndex, val). holeIndex)") auto

declare push_heap.simps [simp del]

function sift_down ::
  "('a \<Rightarrow> 'a \<Rightarrow> bool) \<Rightarrow> 'a list \<Rightarrow> nat \<Rightarrow> nat \<Rightarrow> nat \<Rightarrow> 'a list \<times> nat" where
  "sift_down cmp xs first secondChild len =
     (if secondChild < (len - 1) div 2
      then let child = 2 * (secondChild + 1);
               child' = (if cmp (xs ! (first + child)) (xs ! (first + (child - 1)))
                         then child - 1 else child)
           in sift_down cmp (xs[first + secondChild := xs ! (first + child')]) first child' len
      else (xs, secondChild))"
  by pat_completeness auto
termination
  by (relation "measure (\<lambda>(cmp, xs, first, secondChild, len). len - secondChild)") auto

declare sift_down.simps [simp del]

definition adjust_heap ::
  "('a \<Rightarrow> 'a \<Rightarrow> bool) \<Rightarrow> 'a list \<Rightarrow> nat \<Rightarrow> nat \<Rightarrow> nat \<Rightarrow> 'a \<Rightarrow> 'a list" where
  "adjust_heap cmp xs first holeIndex len val =
     (let (xs', secondChild) = sift_down cmp xs first holeIndex len
      in if even len \<and> 2 \<le> len \<and> secondChild = (len - 2) div 2
         then let child = 2 * (secondChild + 1)
              in push_heap cmp (xs'[first + secondChild := xs' ! (first + (child - 1))]) first
                   (child - 1) holeIndex val
         else push_heap cmp xs' first secondChild holeIndex val)"

fun make_heap_from ::
  "('a \<Rightarrow> 'a \<Rightarrow> bool) \<Rightarrow> 'a list \<Rightarrow> nat \<Rightarrow> nat \<Rightarrow> nat \<Rightarrow> 'a list" where
  "make_heap_from cmp xs first len 0 = adjust_heap cmp xs first 0 len (xs ! first)"
| "make_heap_from cmp xs first len (Suc parent) =
     make_heap_from cmp (adjust_heap cmp xs first (Suc parent) len (xs ! (first + Suc parent)))
       first len parent"

definition make_heap :: "('a \<Rightarrow> 'a \<Rightarrow> bool) \<Rightarrow> 'a list \<Rightarrow> nat \<Rightarrow> nat \<Rightarrow> 'a list" where
  "make_heap cmp xs first last_it =
     (let len = last_it - first
      in if len < 2 then xs else make_heap_from cmp xs first len ((len - 2) div 2))"

definition pop_heap :: "('a \<Rightarrow> 'a \<Rightarrow> bool) \<Rightarrow> 'a list \<Rightarrow> nat \<Rightarrow> nat \<Rightarrow> nat \<Rightarrow> 'a list" where
  "pop_heap cmp xs first last_it result =
     adjust_heap cmp (xs[result := xs ! first]) first 0 (last_it - first) (xs ! result)"

function sort_heap :: "('a \<Rightarrow> 'a \<Rightarrow> bool) \<Rightarrow> 'a list \<Rightarrow> nat \<Rightarrow> nat \<Rightarrow> 'a list" where
  "sort_heap cmp xs first last_it =
     (if 1 < last_it - first
      then sort_heap cmp (pop_heap cmp xs first (last_it - 1) (last_it - 1)) first (last_it - 1)
      else xs)"
  by pat_completeness auto
termination
  by (relation "measure (\<lambda>(cmp, xs, first, last_it). last_it - first)") auto

declare sort_heap.simps [simp del]

text \<open>
  \<^verbatim>\<open>__partial_sort(first, last, last)\<close>, the call of the introsort: with the middle at
  the end of the range the selection loop of \<^verbatim>\<open>__heap_select\<close> has nothing to visit.
\<close>

definition partial_sort_all :: "('a \<Rightarrow> 'a \<Rightarrow> bool) \<Rightarrow> 'a list \<Rightarrow> nat \<Rightarrow> nat \<Rightarrow> 'a list" where
  "partial_sort_all cmp xs first last_it = sort_heap cmp (make_heap cmp xs first last_it) first last_it"

text \<open>\<^verbatim>\<open>__introsort_loop\<close>, with \<^verbatim>\<open>_S_threshold = 16\<close>.\<close>

fun introsort_loop ::
  "('a \<Rightarrow> 'a \<Rightarrow> bool) \<Rightarrow> 'a list \<Rightarrow> nat \<Rightarrow> nat \<Rightarrow> nat \<Rightarrow> 'a list" where
  "introsort_loop cmp xs first last_it 0 =
     (if 16 < last_it - first then partial_sort_all cmp xs first last_it else xs)"
| "introsort_loop cmp xs first last_it (Suc depth_limit) =
     (if 16 < last_it - first
      then (let (cut, xs') = unguarded_partition_pivot cmp xs first last_it
            in introsort_loop cmp (introsort_loop cmp xs' cut last_it depth_limit) first cut
                 depth_limit)
      else xs)"

text \<open>
  \<^verbatim>\<open>__unguarded_linear_insert\<close>: the element at \<open>last_it\<close> moves down past the elements
  it is less than. The source does not test for the start of the range (an element that
  stops the scan lies before); \<open>0 < last_it\<close> makes the function total.
\<close>

function linear_insert :: "('a \<Rightarrow> 'a \<Rightarrow> bool) \<Rightarrow> 'a list \<Rightarrow> 'a \<Rightarrow> nat \<Rightarrow> 'a list" where
  "linear_insert cmp xs val last_it =
     (if 0 < last_it \<and> cmp val (xs ! (last_it - 1))
      then linear_insert cmp (xs[last_it := xs ! (last_it - 1)]) val (last_it - 1)
      else xs[last_it := val])"
  by pat_completeness auto
termination
  by (relation "measure (\<lambda>(cmp, xs, val, last_it). last_it)") auto

declare linear_insert.simps [simp del]

definition unguarded_linear_insert :: "('a \<Rightarrow> 'a \<Rightarrow> bool) \<Rightarrow> 'a list \<Rightarrow> nat \<Rightarrow> 'a list" where
  "unguarded_linear_insert cmp xs last_it = linear_insert cmp xs (xs ! last_it) last_it"

text \<open>\<^verbatim>\<open>__insertion_sort\<close>, its loop from \<open>i\<close> on.\<close>

function insertion_sort_from ::
  "('a \<Rightarrow> 'a \<Rightarrow> bool) \<Rightarrow> 'a list \<Rightarrow> nat \<Rightarrow> nat \<Rightarrow> nat \<Rightarrow> 'a list" where
  "insertion_sort_from cmp xs first i last_it =
     (if i < last_it
      then insertion_sort_from cmp
             (if cmp (xs ! i) (xs ! first)
              then take first xs @ xs ! i # take (i - first) (drop first xs) @ drop (Suc i) xs
              else unguarded_linear_insert cmp xs i)
             first (Suc i) last_it
      else xs)"
  by pat_completeness auto
termination
  by (relation "measure (\<lambda>(cmp, xs, first, i, last_it). last_it - i)") auto

declare insertion_sort_from.simps [simp del]

definition insertion_sort :: "('a \<Rightarrow> 'a \<Rightarrow> bool) \<Rightarrow> 'a list \<Rightarrow> nat \<Rightarrow> nat \<Rightarrow> 'a list" where
  "insertion_sort cmp xs first last_it =
     (if first = last_it then xs else insertion_sort_from cmp xs first (Suc first) last_it)"

function unguarded_insertion_sort ::
  "('a \<Rightarrow> 'a \<Rightarrow> bool) \<Rightarrow> 'a list \<Rightarrow> nat \<Rightarrow> nat \<Rightarrow> 'a list" where
  "unguarded_insertion_sort cmp xs i last_it =
     (if i < last_it
      then unguarded_insertion_sort cmp (unguarded_linear_insert cmp xs i) (Suc i) last_it
      else xs)"
  by pat_completeness auto
termination
  by (relation "measure (\<lambda>(cmp, xs, i, last_it). last_it - i)") auto

declare unguarded_insertion_sort.simps [simp del]

definition final_insertion_sort ::
  "('a \<Rightarrow> 'a \<Rightarrow> bool) \<Rightarrow> 'a list \<Rightarrow> nat \<Rightarrow> nat \<Rightarrow> 'a list" where
  "final_insertion_sort cmp xs first last_it =
     (if 16 < last_it - first
      then unguarded_insertion_sort cmp (insertion_sort cmp xs first (first + 16)) (first + 16)
             last_it
      else insertion_sort cmp xs first last_it)"

text \<open>\<^verbatim>\<open>std::sort(first, last, comp)\<close> on the whole list; \<^verbatim>\<open>std::__lg\<close> is \<open>\<lfloor>log\<^sub>2\<rfloor>\<close>.\<close>

definition libstdcxx_sort :: "('a \<Rightarrow> 'a \<Rightarrow> bool) \<Rightarrow> 'a list \<Rightarrow> 'a list" where
  "libstdcxx_sort cmp xs =
     (if xs = [] then xs
      else final_insertion_sort cmp
             (introsort_loop cmp xs 0 (length xs) (2 * (floorlog 2 (length xs) - 1)))
             0 (length xs))"

subsection \<open>Helpers of the repository that the sorters call\<close>

text \<open>
  Modelled from the spec: \<^verbatim>\<open>stringTakeWhileAdmissable\<close> is declared outside
  \<^verbatim>\<open>Sorters.h\<close>. The specification says that the admissibility filter takes the
  maximal prefix of the line consisting only of admissible characters, and discards
  everything from the first inadmissible character on.
\<close>

definition stringTakeWhileAdmissable :: "generic_string \<Rightarrow> generic_string \<Rightarrow> generic_string" where
  "stringTakeWhileAdmissable input admissable =
     (case find_first_not_of input admissable of
        None \<Rightarrow> input
      | Some idx \<Rightarrow> take idx input)"

text \<open>
  Modelled from the spec: \<^verbatim>\<open>stringReplace\<close> is declared outside
  \<^verbatim>\<open>Sorters.h\<close>. The specification says that after extraction every comma is
  rewritten to a period; the model replaces every occurrence of a one-character search
  text, the only way the sorters call it.
\<close>

definition stringReplace :: "generic_string \<Rightarrow> generic_string \<Rightarrow> generic_string \<Rightarrow> generic_string" where
  "stringReplace subject search replace =
     concat (map (\<lambda>c. if [c] = search then replace else [c]) subject)"

text \<open>
  Modelled from the spec: \<^verbatim>\<open>stodLocale\<close> is declared outside \<^verbatim>\<open>Sorters.h\<close>.
  The specification says that conversion parses the text as a 64-bit floating-point
  value with the period as decimal separator and no grouping separators, and that
  malformed or out-of-range text raises the conversion failure. The model reads, as
  \<^verbatim>\<open>strtod\<close> does, leading white space, an optional sign, digits, and a period
  followed by digits, and ignores what follows; exponents, hexadecimal numerals and the
  words for infinity and NaN need letters, which no sorter leaves in the text it
  converts. A value is the rational number that the binary64 result denotes (so the two
  zeros are one key, as they are for the comparison \<^verbatim>\<open><\<close>): the nearest number with
  a 53-bit significand, ties to even. Out of range is a magnitude of \<open>2 ^ 1024\<close> or more
  after rounding, or a nonzero magnitude under the least normal number \<open>2 ^ - 1022\<close>.
\<close>

definition ilog2 :: "nat \<Rightarrow> nat \<Rightarrow> int" where
  \<comment> \<open>\<open>\<lfloor>log\<^sub>2 (a / b)\<rfloor>\<close> for positive \<open>a\<close> and \<open>b\<close>\<close>
  "ilog2 a b =
     (let e = int (floorlog 2 a) - int (floorlog 2 b)
      in if (if 0 \<le> e then b * 2 ^ nat e \<le> a else b \<le> a * 2 ^ nat (- e)) then e else e - 1)"

definition round_half_even :: "nat \<Rightarrow> nat \<Rightarrow> nat" where
  \<comment> \<open>\<open>num / den\<close> rounded to the nearest integer, ties to even\<close>
  "round_half_even num den =
     (let f = num div den; r = num mod den
      in if 2 * r < den then f else if den < 2 * r then f + 1 else if even f then f else f + 1)"

definition round_to_binary64 :: "nat \<Rightarrow> nat \<Rightarrow> rat option" where
  "round_to_binary64 a b =
     (if a = 0 then Some 0
      else let e = ilog2 a b in
        if e < - 1022 then None
        else let s = 52 - e;
                 n = (if 0 \<le> s then round_half_even (a * 2 ^ nat s) b
                      else round_half_even a (b * 2 ^ nat (- s)));
                 v = (if 0 \<le> s then of_nat n / 2 ^ nat s else of_nat n * 2 ^ nat (- s))
             in if 2 ^ 1024 \<le> v then None else Some v)"

definition stodLocale :: "generic_string \<Rightarrow> rat option" where
  "stodLocale str =
     (let (negative, rest) = strip_sign (dropWhile isspace str);
          intPart = takeWhile isdigit rest;
          fracPart = (case dropWhile isdigit rest of
                        [] \<Rightarrow> []
                      | c # cs \<Rightarrow> if c = CHR ''.'' then takeWhile isdigit cs else [])
      in if intPart = [] \<and> fracPart = [] then None
         else map_option (\<lambda>v. if negative then - v else v)
                (round_to_binary64 (digits_value (intPart @ fracPart)) (10 ^ length fracPart)))"

subsection \<open>LexicographicSorter\<close>

text \<open>The lambda that \<^verbatim>\<open>LexicographicSorter::sort\<close> passes to \<^verbatim>\<open>std::sort\<close>.\<close>

definition LexicographicSorter_less :: "bool \<Rightarrow> generic_string \<Rightarrow> generic_string \<Rightarrow> bool" where
  "LexicographicSorter_less descending a b =
     (if descending then compare a b > 0 else compare a b < 0)"

definition LexicographicSorter_sort :: "bool \<Rightarrow> generic_string list \<Rightarrow> outcome \<Rightarrow> bool" where
  "LexicographicSorter_sort descending lines result \<longleftrightarrow>
     (case result of
        Inl lineIndex \<Rightarrow> False
      | Inr output \<Rightarrow> std_sort (LexicographicSorter_less descending) lines output)"

subsection \<open>NumericSorter\<close>

definition considerStringEmpty :: "generic_string \<Rightarrow> bool" where
  "considerStringEmpty input \<longleftrightarrow> find_first_not_of input whitespace = None"

text \<open>
  The first loop of \<^verbatim>\<open>NumericSorter::sort\<close>, from \<^verbatim>\<open>lineIndex\<close> on, over the lines
  not yet visited: it fills \<^verbatim>\<open>nonEmptyInputAsNumbers\<close> and \<^verbatim>\<open>empties\<close>, or throws
  \<^verbatim>\<open>lineIndex\<close> when the conversion throws. The two pure virtual functions
  \<^verbatim>\<open>prepareStringForConversion\<close> and \<^verbatim>\<open>convertStringToNumber\<close> are parameters.
\<close>

fun collect ::
  "(generic_string \<Rightarrow> generic_string) \<Rightarrow> (generic_string \<Rightarrow> 'n option) \<Rightarrow> nat \<Rightarrow>
   generic_string list \<Rightarrow> (nat \<times> 'n) list \<Rightarrow> generic_string list \<Rightarrow>
   nat + ((nat \<times> 'n) list \<times> generic_string list)" where
  "collect prepare convert lineIndex [] nonEmptyInputAsNumbers empties =
     Inr (nonEmptyInputAsNumbers, empties)"
| "collect prepare convert lineIndex (originalLine # rest) nonEmptyInputAsNumbers empties =
     (let preparedLine = prepare originalLine
      in if considerStringEmpty preparedLine
         then collect prepare convert (Suc lineIndex) rest nonEmptyInputAsNumbers
                (empties @ [originalLine])
         else (case convert preparedLine of
                 None \<Rightarrow> Inl lineIndex
               | Some number \<Rightarrow>
                   collect prepare convert (Suc lineIndex) rest
                     (nonEmptyInputAsNumbers @ [(lineIndex, number)]) empties))"

text \<open>The lambda that \<^verbatim>\<open>NumericSorter::sort\<close> passes to \<^verbatim>\<open>std::sort\<close>.\<close>

definition NumericSorter_less :: "bool \<Rightarrow> nat \<times> 'n::linorder \<Rightarrow> nat \<times> 'n \<Rightarrow> bool" where
  "NumericSorter_less descending a b = (if descending then snd a > snd b else snd a < snd b)"

text \<open>The output that \<^verbatim>\<open>NumericSorter::sort\<close> assembles after sorting.\<close>

definition assemble ::
  "bool \<Rightarrow> generic_string list \<Rightarrow> generic_string list \<Rightarrow> (nat \<times> 'n) list \<Rightarrow> generic_string list" where
  "assemble descending lines empties sortedNumbers =
     (if \<not> descending then empties else []) @
     map (\<lambda>sortedNumber. lines ! fst sortedNumber) sortedNumbers @
     (if descending then empties else [])"

text \<open>
  \<^verbatim>\<open>NumericSorter<T_Num>::sort\<close>. The key type is a linear order: \<^verbatim>\<open>long long\<close>
  is one, and so are the values a \<^verbatim>\<open>double\<close> denotes when it is not a NaN.
\<close>

inductive NumericSorter_sort ::
  "(generic_string \<Rightarrow> generic_string) \<Rightarrow> (generic_string \<Rightarrow> 'n::linorder option) \<Rightarrow> bool \<Rightarrow>
   generic_string list \<Rightarrow> outcome \<Rightarrow> bool"
  for prepare convert descending lines where
  thrown:
    "collect prepare convert 0 lines [] [] = Inl lineIndex \<Longrightarrow>
     NumericSorter_sort prepare convert descending lines (Inl lineIndex)"
| returned:
    "collect prepare convert 0 lines [] [] = Inr (nonEmptyInputAsNumbers, empties) \<Longrightarrow>
     std_sort (NumericSorter_less descending) nonEmptyInputAsNumbers sortedNumbers \<Longrightarrow>
     NumericSorter_sort prepare convert descending lines
       (Inr (assemble descending lines empties sortedNumbers))"

subsection \<open>IntegerSorter, DecimalCommaSorter, DecimalDotSorter\<close>

definition digits :: generic_string where
  "digits = ''0123456789''"

definition IntegerSorter_prepareStringForConversion :: "generic_string \<Rightarrow> generic_string" where
  "IntegerSorter_prepareStringForConversion input =
     stringTakeWhileAdmissable input (whitespace @ digits @ ''-'')"

definition IntegerSorter_convertStringToNumber :: "generic_string \<Rightarrow> int option" where
  "IntegerSorter_convertStringToNumber input = stoll input"

definition IntegerSorter_sort :: "bool \<Rightarrow> generic_string list \<Rightarrow> outcome \<Rightarrow> bool" where
  "IntegerSorter_sort =
     NumericSorter_sort IntegerSorter_prepareStringForConversion IntegerSorter_convertStringToNumber"

definition DecimalCommaSorter_prepareStringForConversion :: "generic_string \<Rightarrow> generic_string" where
  "DecimalCommaSorter_prepareStringForConversion input =
     (let admissablePart = stringTakeWhileAdmissable input (whitespace @ digits @ '',-'')
      in stringReplace admissablePart '','' ''.'')"

definition DecimalCommaSorter_convertStringToNumber :: "generic_string \<Rightarrow> rat option" where
  "DecimalCommaSorter_convertStringToNumber input = stodLocale input"

definition DecimalCommaSorter_sort :: "bool \<Rightarrow> generic_string list \<Rightarrow> outcome \<Rightarrow> bool" where
  "DecimalCommaSorter_sort =
     NumericSorter_sort DecimalCommaSorter_prepareStringForConversion
       DecimalCommaSorter_convertStringToNumber"

definition DecimalDotSorter_prepareStringForConversion :: "generic_string \<Rightarrow> generic_string" where
  "DecimalDotSorter_prepareStringForConversion input =
     stringTakeWhileAdmissable input (whitespace @ digits @ ''.-'')"

definition DecimalDotSorter_convertStringToNumber :: "generic_string \<Rightarrow> rat option" where
  "DecimalDotSorter_convertStringToNumber input = stodLocale input"

definition DecimalDotSorter_sort :: "bool \<Rightarrow> generic_string list \<Rightarrow> outcome \<Rightarrow> bool" where
  "DecimalDotSorter_sort =
     NumericSorter_sort DecimalDotSorter_prepareStringForConversion
       DecimalDotSorter_convertStringToNumber"

subsection \<open>Notions for stating the properties\<close>

text \<open>
  A line is an empty line for a numeric sorter when \<^verbatim>\<open>considerStringEmpty\<close> holds of
  its prepared text; every other line is a candidate. A candidate is unparseable when
  its conversion throws. \<^term>\<open>numbered\<close> is the content of
  \<^verbatim>\<open>nonEmptyInputAsNumbers\<close> after a loop that did not throw.
\<close>

definition isEmptyLine :: "(generic_string \<Rightarrow> generic_string) \<Rightarrow> generic_string \<Rightarrow> bool" where
  "isEmptyLine prepare line \<longleftrightarrow> considerStringEmpty (prepare line)"

definition unparseable ::
  "(generic_string \<Rightarrow> generic_string) \<Rightarrow> (generic_string \<Rightarrow> 'n option) \<Rightarrow> generic_string \<Rightarrow> bool" where
  "unparseable prepare convert line \<longleftrightarrow>
     \<not> considerStringEmpty (prepare line) \<and> convert (prepare line) = None"

definition emptyLines :: "(generic_string \<Rightarrow> generic_string) \<Rightarrow> generic_string list \<Rightarrow> generic_string list" where
  "emptyLines prepare lines = filter (isEmptyLine prepare) lines"

definition candidates :: "(generic_string \<Rightarrow> generic_string) \<Rightarrow> generic_string list \<Rightarrow> generic_string list" where
  "candidates prepare lines = filter (\<lambda>line. \<not> isEmptyLine prepare line) lines"

definition numbered ::
  "(generic_string \<Rightarrow> generic_string) \<Rightarrow> (generic_string \<Rightarrow> 'n option) \<Rightarrow> nat \<Rightarrow>
   generic_string list \<Rightarrow> (nat \<times> 'n) list" where
  "numbered prepare convert i lines =
     map (\<lambda>(j, line). (j, the (convert (prepare line))))
       (filter (\<lambda>(j, line). \<not> isEmptyLine prepare line) (enumerate i lines))"

text \<open>
  The value of a run of digits in positional base-10 notation, most significant digit
  first.
\<close>

fun decimal_value :: "string \<Rightarrow> nat" where
  "decimal_value [] = 0"
| "decimal_value (c # ds) = digit_value c * 10 ^ length ds + decimal_value ds"

text \<open>
  The integer grammar in the specification's words, for comparison with what the
  conversion accepts: the whole text is a numeral, that is white space, an optional
  leading minus sign, one or more digits, and white space.
\<close>

definition spec_integer_text :: "generic_string \<Rightarrow> bool" where
  "spec_integer_text s \<longleftrightarrow>
     (let t = dropWhile isspace s;
          u = (case t of [] \<Rightarrow> [] | c # r \<Rightarrow> if c = CHR ''-'' then r else t)
      in takeWhile isdigit u \<noteq> [] \<and> list_all isspace (dropWhile isdigit u))"

section \<open>The first loop of NumericSorter::sort\<close>

lemma find_first_not_of_None: "find_first_not_of s cs = None \<longleftrightarrow> set s \<subseteq> set cs"
  by (induction s) auto

lemma considerStringEmpty_iff: "considerStringEmpty s \<longleftrightarrow> set s \<subseteq> set whitespace"
  by (simp add: considerStringEmpty_def find_first_not_of_None)

lemma stringTakeWhileAdmissable_takeWhile:
  "stringTakeWhileAdmissable input admissable = takeWhile (\<lambda>c. c \<in> set admissable) input"
proof -
  have "(case find_first_not_of s cs of None \<Rightarrow> s | Some idx \<Rightarrow> take idx s)
        = takeWhile (\<lambda>c. c \<in> set cs) s" for s cs
    by (induction s) (auto split: option.splits)
  then show ?thesis by (simp add: stringTakeWhileAdmissable_def)
qed

lemma collect_Inr_iff:
  "collect p c i ls ns es = Inr (ns', es') \<longleftrightarrow>
     (\<forall>l\<in>set ls. \<not> unparseable p c l) \<and> es' = es @ emptyLines p ls \<and>
     ns' = ns @ numbered p c i ls"
proof (induction ls arbitrary: i ns es)
  case Nil
  show ?case by (auto simp: emptyLines_def numbered_def)
next
  case (Cons l ls)
  show ?case
    by (cases "c (p l)")
       (auto simp: Cons.IH Let_def unparseable_def emptyLines_def numbered_def isEmptyLine_def)
qed

lemma collect_Inl_iff:
  "collect p c i ls ns es = Inl k \<longleftrightarrow>
     (\<exists>pre l post. ls = pre @ l # post \<and> k = i + length pre \<and> unparseable p c l \<and>
        (\<forall>x\<in>set pre. \<not> unparseable p c x))"
proof (induction ls arbitrary: i ns es)
  case Nil
  show ?case by simp
next
  case (Cons a ls)
  show ?case (is "?L = ?R")
  proof (cases "unparseable p c a")
    case True
    then have "collect p c i (a # ls) ns es = Inl i"
      by (auto simp: unparseable_def Let_def)
    moreover have "?R \<longleftrightarrow> k = i"
    proof
      assume ?R
      then obtain pre l post where h: "a # ls = pre @ l # post" "k = i + length pre"
        "\<forall>x\<in>set pre. \<not> unparseable p c x" by blast
      with True show "k = i" by (cases pre) auto
    next
      assume "k = i"
      with True show ?R by (intro exI[of _ "[]"] exI[of _ a] exI[of _ ls]) simp
    qed
    ultimately show ?thesis by auto
  next
    case False
    have "collect p c i (a # ls) ns es = Inl k \<longleftrightarrow>
      (\<exists>pre l post. ls = pre @ l # post \<and> k = Suc i + length pre \<and> unparseable p c l \<and>
        (\<forall>x\<in>set pre. \<not> unparseable p c x))"
      using False by (cases "c (p a)") (simp_all add: unparseable_def Let_def Cons.IH)
    also have "\<dots> \<longleftrightarrow> ?R"
    proof
      assume "\<exists>pre l post. ls = pre @ l # post \<and> k = Suc i + length pre \<and> unparseable p c l \<and>
        (\<forall>x\<in>set pre. \<not> unparseable p c x)"
      then obtain pre l post where "ls = pre @ l # post" "k = Suc i + length pre" "unparseable p c l"
        "\<forall>x\<in>set pre. \<not> unparseable p c x" by blast
      with False show ?R
        by (intro exI[of _ "a # pre"] exI[of _ l] exI[of _ post]) simp
    next
      assume ?R
      then obtain pre l post where h: "a # ls = pre @ l # post" "k = i + length pre"
        "unparseable p c l" "\<forall>x\<in>set pre. \<not> unparseable p c x" by blast
      with False obtain pre' where "pre = a # pre'" by (cases pre) auto
      with h show "\<exists>pre l post. ls = pre @ l # post \<and> k = Suc i + length pre \<and> unparseable p c l \<and>
        (\<forall>x\<in>set pre. \<not> unparseable p c x)"
        by (intro exI[of _ pre'] exI[of _ l] exI[of _ post]) simp
    qed
    finally show ?thesis .
  qed
qed

lemma map_snd_filter: "map snd (filter (\<lambda>(j, l). Q l) xs) = filter Q (map snd xs)"
  by (induction xs) auto

lemma numbered_lines:
  "map (\<lambda>sn. lines ! fst sn) (numbered p c 0 lines) = candidates p lines"
proof -
  let ?P = "\<lambda>(j, line). \<not> isEmptyLine p line"
  have "map (\<lambda>sn. lines ! fst sn) (numbered p c 0 lines)
        = map (\<lambda>jl. lines ! fst jl) (filter ?P (enumerate 0 lines))"
    by (simp add: numbered_def split_def o_def)
  also have "\<dots> = map snd (filter ?P (enumerate 0 lines))"
    by (rule map_cong) (auto simp: in_set_enumerate_eq)
  also have "\<dots> = filter (\<lambda>line. \<not> isEmptyLine p line) (map snd (enumerate 0 lines))"
    by (simp add: map_snd_filter)
  finally show ?thesis by (simp add: candidates_def)
qed

lemma numbered_keys:
  assumes "\<forall>l\<in>set lines. \<not> unparseable p c l" and "sn \<in> set (numbered p c 0 lines)"
  shows "c (p (lines ! fst sn)) = Some (snd sn)"
proof -
  from assms(2) obtain j l where jl: "(j, l) \<in> set (enumerate 0 lines)" "\<not> isEmptyLine p l"
    "sn = (j, the (c (p l)))"
    by (auto simp: numbered_def)
  then have "lines ! j = l" "l \<in> set lines" by (auto simp: in_set_enumerate_eq)
  with assms(1) jl show ?thesis by (auto simp: unparseable_def isEmptyLine_def)
qed

lemma numbered_index:
  "sn \<in> set (numbered p c 0 lines) \<Longrightarrow> fst sn < length lines"
  by (auto simp: numbered_def in_set_enumerate_eq)

text \<open>
  Every index that the output loop reads with \<^verbatim>\<open>lines[sortedNumber.first]\<close> is in
  range: the sorted pairs are the collected pairs, and those carry indices of lines.
\<close>

lemma sorted_indices_in_range:
  assumes "collect p c 0 lines [] [] = Inr (ns, es)" and "std_sort cmp ns sortedNumbers"
    and "sn \<in> set sortedNumbers"
  shows "fst sn < length lines"
proof -
  from assms(1) have "ns = numbered p c 0 lines" by (simp add: collect_Inr_iff)
  moreover from assms(2) have "set sortedNumbers = set ns"
    by (auto simp: std_sort_def dest: mset_eq_setD)
  ultimately show ?thesis using assms(3) by (simp add: numbered_index)
qed

text \<open>
  The two assertions of \<^verbatim>\<open>NumericSorter::sort\<close> hold: after the first loop the two
  vectors hold as many entries as there are lines, and so does the output.
\<close>

lemma collect_sizes:
  assumes "collect p c 0 lines [] [] = Inr (ns, es)"
  shows "length ns + length es = length lines"
proof -
  from assms have ns: "ns = numbered p c 0 lines" and es: "es = emptyLines p lines"
    by (simp_all add: collect_Inr_iff)
  have "length (numbered p c 0 lines) = length (map (\<lambda>sn. lines ! fst sn) (numbered p c 0 lines))"
    by simp
  also have "\<dots> = length (candidates p lines)" by (simp only: numbered_lines)
  finally have "length ns = length (candidates p lines)" using ns by simp
  with es show ?thesis
    by (simp add: candidates_def emptyLines_def sum_length_filter_compl add.commute)
qed

lemma assemble_size:
  assumes "collect p c 0 lines [] [] = Inr (ns, es)" and "std_sort cmp ns sortedNumbers"
  shows "length (assemble d lines es sortedNumbers) = length lines"
proof -
  from assms(2) have "length sortedNumbers = length ns"
    by (auto simp: std_sort_def dest: mset_eq_length)
  with collect_sizes[OF assms(1)] show ?thesis by (simp add: assemble_def)
qed

lemma NumericSorter_sort_Inl_iff:
  "NumericSorter_sort p c d lines (Inl k) \<longleftrightarrow>
     (\<exists>pre l post. lines = pre @ l # post \<and> k = length pre \<and> unparseable p c l \<and>
        (\<forall>x\<in>set pre. \<not> unparseable p c x))"
  by (simp add: NumericSorter_sort.simps collect_Inl_iff)

lemma NumericSorter_sort_Inr_iff:
  "NumericSorter_sort p c d lines (Inr output) \<longleftrightarrow>
     (\<forall>l\<in>set lines. \<not> unparseable p c l) \<and>
     (\<exists>sortedNumbers. std_sort (NumericSorter_less d) (numbered p c 0 lines) sortedNumbers \<and>
        output = assemble d lines (emptyLines p lines) sortedNumbers)"
  by (auto simp: NumericSorter_sort.simps collect_Inr_iff)

lemma sorted_wrt_NumericSorter_less:
  "sorted_wrt (\<lambda>a b. \<not> NumericSorter_less d b a) xs \<longleftrightarrow>
     (if d then sorted (rev (map snd xs)) else sorted (map snd xs))"
proof -
  have "sorted_wrt (\<lambda>a b. \<not> NumericSorter_less True b a) xs = sorted_wrt (\<lambda>a b. snd a \<ge> snd b) xs"
    by (simp add: NumericSorter_less_def not_less)
  moreover have "sorted_wrt (\<lambda>a b. \<not> NumericSorter_less False b a) xs = sorted_wrt (\<lambda>a b. snd a \<le> snd b) xs"
    by (simp add: NumericSorter_less_def not_less)
  ultimately show ?thesis
    by (cases d) (simp_all add: sorted_wrt_map sorted_wrt_rev rev_map[symmetric])
qed

text \<open>What a returned output looks like.\<close>

lemma NumericSorter_sort_returned:
  assumes "NumericSorter_sort p c d lines (Inr output)"
  shows "\<exists>cs ks. output = (if d then cs @ emptyLines p lines else emptyLines p lines @ cs) \<and>
           mset cs = mset (candidates p lines) \<and> map (\<lambda>l. c (p l)) cs = map Some ks \<and>
           (if d then sorted (rev ks) else sorted ks)"
proof -
  from assms obtain sn where ok: "\<forall>l\<in>set lines. \<not> unparseable p c l"
    and srt: "std_sort (NumericSorter_less d) (numbered p c 0 lines) sn"
    and out: "output = assemble d lines (emptyLines p lines) sn"
    by (auto simp: NumericSorter_sort_Inr_iff)
  let ?cs = "map (\<lambda>s. lines ! fst s) sn"
  from srt have ms: "mset sn = mset (numbered p c 0 lines)" by (simp add: std_sort_def)
  then have "mset ?cs = mset (map (\<lambda>s. lines ! fst s) (numbered p c 0 lines))"
    by (metis mset_map)
  then have 1: "mset ?cs = mset (candidates p lines)" by (simp add: numbered_lines)
  from ms have "set sn = set (numbered p c 0 lines)" by (rule mset_eq_setD)
  with ok have 2: "map (\<lambda>l. c (p l)) ?cs = map Some (map snd sn)"
    by (auto simp: numbered_keys)
  from srt have 3: "if d then sorted (rev (map snd sn)) else sorted (map snd sn)"
    by (simp add: std_sort_def sorted_wrt_NumericSorter_less)
  from out have 0: "output = (if d then ?cs @ emptyLines p lines else emptyLines p lines @ ?cs)"
    by (simp add: assemble_def)
  from 0 1 2 3 show ?thesis by blast
qed

lemma std_sort_total_numeric: "\<exists>ys. std_sort (NumericSorter_less d) xs ys"
proof (cases d)
  case True
  have "std_sort (NumericSorter_less True) xs (rev (sort_key snd xs))"
    by (simp add: std_sort_def sorted_wrt_NumericSorter_less rev_map)
  with True show ?thesis by auto
next
  case False
  have "std_sort (NumericSorter_less False) xs (sort_key snd xs)"
    by (simp add: std_sort_def sorted_wrt_NumericSorter_less)
  with False show ?thesis by auto
qed

lemma NumericSorter_sort_total: "\<exists>result. NumericSorter_sort p c d lines result"
proof (cases "collect p c 0 lines [] []")
  case (Inl k)
  then show ?thesis by (blast intro: NumericSorter_sort.thrown)
next
  case (Inr r)
  obtain ns es where "r = (ns, es)" by (cases r)
  with Inr std_sort_total_numeric[of d ns] show ?thesis
    by (blast intro: NumericSorter_sort.returned)
qed

section \<open>LexicographicSorter::sort\<close>

lemma LexicographicSorter_less_iff:
  "LexicographicSorter_less d a b \<longleftrightarrow> (if d then b < a else a < b)"
  by (auto simp: LexicographicSorter_less_def compare_def)

lemma LexicographicSorter_sort_iff:
  "LexicographicSorter_sort d lines result \<longleftrightarrow>
     result = Inr (if d then rev (sort lines) else sort lines)"
proof (cases result)
  case (Inl k)
  then show ?thesis by (simp add: LexicographicSorter_sort_def)
next
  case (Inr out)
  have asc: "mset out = mset lines \<and> sorted out \<longleftrightarrow> out = sort lines"
    using properties_for_sort[of out lines] by auto
  have desc: "mset out = mset lines \<and> sorted (rev out) \<longleftrightarrow> out = rev (sort lines)"
    by (metis properties_for_sort mset_rev mset_sort sorted_sort rev_rev_ident)
  have "sorted_wrt (\<lambda>a b. \<not> LexicographicSorter_less d b a) out \<longleftrightarrow>
        (if d then sorted (rev out) else sorted out)"
    by (simp add: LexicographicSorter_less_iff not_less sorted_wrt_rev)
  with asc desc Inr show ?thesis
    by (simp add: LexicographicSorter_sort_def std_sort_def)
qed

lemma LexicographicSorter_sort_total: "\<exists>result. LexicographicSorter_sort d lines result"
  by (simp add: LexicographicSorter_sort_iff)

lemmas evaluation =
  stoll_def stodLocale_def isspace_def isdigit_def digits_value_def digit_value_def
  round_to_binary64_def ilog2_def round_half_even_def Let_def compute_floorlog
  stringTakeWhileAdmissable_def stringReplace_def whitespace_def digits_def
  considerStringEmpty_def
  IntegerSorter_prepareStringForConversion_def IntegerSorter_convertStringToNumber_def
  DecimalCommaSorter_prepareStringForConversion_def DecimalCommaSorter_convertStringToNumber_def
  DecimalDotSorter_prepareStringForConversion_def DecimalDotSorter_convertStringToNumber_def

lemma lex_example:
  "LexicographicSorter_sort True [''banana'', ''apple'', ''cherry'']
     (Inr [''cherry'', ''banana'', ''apple''])"
  by (simp add: LexicographicSorter_sort_def std_sort_def LexicographicSorter_less_def compare_def)

lemma integer_example_collect:
  "collect IntegerSorter_prepareStringForConversion IntegerSorter_convertStringToNumber 0
     [''10'', ''2'', '''', ''-5''] [] [] = Inr ([(0, 10), (1, 2), (3, - 5)], [''''])"
  by (simp add: evaluation)

lemma integer_example_ascending:
  "IntegerSorter_sort False [''10'', ''2'', '''', ''-5''] (Inr ['''', ''-5'', ''2'', ''10''])"
proof -
  have "std_sort (NumericSorter_less False) [(0, 10), (1, 2), (3, - 5 :: int)]
          [(3, - 5), (1, 2), (0 :: nat, 10)]"
    by (simp add: std_sort_def NumericSorter_less_def)
  from NumericSorter_sort.returned[OF integer_example_collect this]
  show ?thesis by (simp add: IntegerSorter_sort_def assemble_def)
qed

lemma integer_example_descending:
  "IntegerSorter_sort True [''10'', ''2'', '''', ''-5''] (Inr [''10'', ''2'', ''-5'', ''''])"
proof -
  have "std_sort (NumericSorter_less True) [(0, 10), (1, 2), (3, - 5 :: int)]
          [(0, 10), (1, 2), (3 :: nat, - 5)]"
    by (simp add: std_sort_def NumericSorter_less_def)
  from NumericSorter_sort.returned[OF integer_example_collect this]
  show ?thesis by (simp add: IntegerSorter_sort_def assemble_def)
qed

text \<open>
  C1. Whatever \<^verbatim>\<open>sort\<close> returns is a permutation of its input: the same multiset of
  lines and the same length, for the lexicographic sorter and for the numeric sorter
  with any preparation and conversion (hence for the integer, decimal-comma and
  decimal-dot sorters), in both directions.
\<close>

theorem C1_sort_permutation:
  "(LexicographicSorter_sort descending lines (Inr output) \<longrightarrow>
      mset output = mset lines \<and> length output = length lines) \<and>
   (NumericSorter_sort prepare convert descending lines (Inr output) \<longrightarrow>
      mset output = mset lines \<and> length output = length lines)"
proof (intro conjI impI)
  assume "LexicographicSorter_sort descending lines (Inr output)"
  then have "mset output = mset lines"
    by (simp add: LexicographicSorter_sort_def std_sort_def)
  then show "mset output = mset lines" "length output = length lines"
    by (auto dest: mset_eq_length)
next
  assume "NumericSorter_sort prepare convert descending lines (Inr output)"
  from NumericSorter_sort_returned[OF this]
  obtain cs where out: "output = (if descending then cs @ emptyLines prepare lines
                                  else emptyLines prepare lines @ cs)"
    and cs: "mset cs = mset (candidates prepare lines)"
    by blast
  have "mset (candidates prepare lines) + mset (emptyLines prepare lines) = mset lines"
    by (simp add: candidates_def emptyLines_def)
  with out cs have "mset output = mset lines"
    by (auto simp: union_commute)
  then show "mset output = mset lines" "length output = length lines"
    by (auto dest: mset_eq_length)
qed

theorem C1_sort_permutation_witness:
  "LexicographicSorter_sort True [''banana'', ''apple'', ''cherry'']
     (Inr [''cherry'', ''banana'', ''apple'']) \<and>
   mset [''cherry'', ''banana'', ''apple''] = mset [''banana'', ''apple'', ''cherry''] \<and>
   length [''cherry'', ''banana'', ''apple''] = length [''banana'', ''apple'', ''cherry''] \<and>
   IntegerSorter_sort False [''10'', ''2'', '''', ''-5''] (Inr ['''', ''-5'', ''2'', ''10'']) \<and>
   mset ['''', ''-5'', ''2'', ''10''] = mset [''10'', ''2'', '''', ''-5''] \<and>
   length ['''', ''-5'', ''2'', ''10''] = length [''10'', ''2'', '''', ''-5'']"
  using lex_example integer_example_ascending
    C1_sort_permutation[of True "[''banana'', ''apple'', ''cherry'']"
      "[''cherry'', ''banana'', ''apple'']"]
    C1_sort_permutation[of False "[''10'', ''2'', '''', ''-5'']" "['''', ''-5'', ''2'', ''10'']"
      IntegerSorter_prepareStringForConversion IntegerSorter_convertStringToNumber]
  unfolding IntegerSorter_sort_def by blast

lemma NumericSorter_sort_thrown_only:
  "collect p c 0 lines [] [] = Inl k \<Longrightarrow>
   NumericSorter_sort p c d lines result \<longleftrightarrow> result = Inl k"
  by (auto simp: NumericSorter_sort.simps)

lemma first_unparseable:
  assumes "\<exists>i<length lines. unparseable p c (lines ! i)"
  shows "collect p c 0 lines [] [] =
         Inl (LEAST i. i < length lines \<and> unparseable p c (lines ! i))"
proof -
  let ?Q = "\<lambda>i. i < length lines \<and> unparseable p c (lines ! i)"
  let ?k = "LEAST i. ?Q i"
  from assms have k: "?Q ?k" by (metis (mono_tags, lifting) LeastI)
  have least: "\<not> ?Q j" if "j < ?k" for j using that by (rule not_less_Least)
  from k have split: "lines = take ?k lines @ lines ! ?k # drop (Suc ?k) lines"
    by (simp add: id_take_nth_drop)
  have before: "\<forall>x\<in>set (take ?k lines). \<not> unparseable p c x"
  proof
    fix x assume "x \<in> set (take ?k lines)"
    then obtain j where j: "j < length (take ?k lines)" "x = take ?k lines ! j"
      by (auto simp: in_set_conv_nth)
    with k have "j < ?k" "x = lines ! j" by auto
    with least[of j] k show "\<not> unparseable p c x" by auto
  qed
  from k have len: "length (take ?k lines) = ?k" by simp
  have "\<exists>pre l post. lines = pre @ l # post \<and> ?k = 0 + length pre \<and> unparseable p c l \<and>
          (\<forall>x\<in>set pre. \<not> unparseable p c x)"
  proof (intro exI conjI)
    show "lines = take ?k lines @ lines ! ?k # drop (Suc ?k) lines" by (rule split)
    show "?k = 0 + length (take ?k lines)" using len by simp
    show "unparseable p c (lines ! ?k)" using k by simp
    show "\<forall>x\<in>set (take ?k lines). \<not> unparseable p c x" by (rule before)
  qed
  then show ?thesis by (simp only: collect_Inl_iff)
qed

text \<open>
  C3. When some candidate line of a numeric sort cannot be converted, the call throws the
  zero-based index of the first such line, and this is its only outcome: no output is
  returned. The caller's lines are passed by value and are not touched.
\<close>

theorem C3_conversion_failure_throws_first_index:
  "\<exists>i<length lines. unparseable prepare convert (lines ! i) \<Longrightarrow>
   NumericSorter_sort prepare convert descending lines result \<longleftrightarrow>
     result = Inl (LEAST i. i < length lines \<and> unparseable prepare convert (lines ! i))"
  by (rule NumericSorter_sort_thrown_only) (rule first_unparseable)


lemma integer_failure_example:
  "(LEAST i. i < length [''7'', ''abc'', ''-'', ''--''] \<and>
      unparseable IntegerSorter_prepareStringForConversion IntegerSorter_convertStringToNumber
        ([''7'', ''abc'', ''-'', ''--''] ! i)) = 2"
proof (rule Least_equality)
  show "2 < length [''7'', ''abc'', ''-'', ''--''] \<and>
      unparseable IntegerSorter_prepareStringForConversion IntegerSorter_convertStringToNumber
        ([''7'', ''abc'', ''-'', ''--''] ! 2)"
    by (simp add: unparseable_def evaluation)
next
  fix y
  assume y: "y < length [''7'', ''abc'', ''-'', ''--''] \<and>
      unparseable IntegerSorter_prepareStringForConversion IntegerSorter_convertStringToNumber
        ([''7'', ''abc'', ''-'', ''--''] ! y)"
  have "\<not> unparseable IntegerSorter_prepareStringForConversion IntegerSorter_convertStringToNumber
        ([''7'', ''abc'', ''-'', ''--''] ! 0)"
       "\<not> unparseable IntegerSorter_prepareStringForConversion IntegerSorter_convertStringToNumber
        ([''7'', ''abc'', ''-'', ''--''] ! 1)"
    by (simp_all add: unparseable_def evaluation)
  with y show "2 \<le> y"
    by (metis One_nat_def Suc_1 less_Suc0 less_Suc_eq not_less)
qed

theorem C3_conversion_failure_throws_first_index_witness:
  "(\<exists>i<length [''7'', ''abc'', ''-'', ''--''].
      unparseable IntegerSorter_prepareStringForConversion IntegerSorter_convertStringToNumber
        ([''7'', ''abc'', ''-'', ''--''] ! i)) \<and>
   IntegerSorter_sort True [''7'', ''abc'', ''-'', ''--''] (Inl 2) \<and>
   \<not> IntegerSorter_sort True [''7'', ''abc'', ''-'', ''--''] (Inr [''7'', ''abc'', ''-'', ''--''])"
proof -
  have h: "\<exists>i<length [''7'', ''abc'', ''-'', ''--''].
      unparseable IntegerSorter_prepareStringForConversion IntegerSorter_convertStringToNumber
        ([''7'', ''abc'', ''-'', ''--''] ! i)"
    by (rule exI[of _ 2]) (simp add: unparseable_def evaluation)
  have "IntegerSorter_sort True [''7'', ''abc'', ''-'', ''--''] result \<longleftrightarrow> result = Inl 2"
    for result
    using C3_conversion_failure_throws_first_index[OF h, of True result]
    unfolding integer_failure_example IntegerSorter_sort_def .
  with h show ?thesis by simp
qed

text \<open>
  C4. A numeric sort that returns puts the empty lines, in their original order, before
  the candidates when ascending and after them when descending; the candidates are a
  permutation of the input's candidates, each has a key, and the keys are in
  non-decreasing order when ascending and in non-increasing order when descending.
\<close>

theorem C4_empties_at_one_end:
  "NumericSorter_sort prepare convert descending lines (Inr output) \<Longrightarrow>
   \<exists>sortedCandidates keys.
      mset sortedCandidates = mset (candidates prepare lines) \<and>
      map (\<lambda>line. convert (prepare line)) sortedCandidates = map Some keys \<and>
      (if descending
       then sorted (rev keys) \<and> output = sortedCandidates @ emptyLines prepare lines
       else sorted keys \<and> output = emptyLines prepare lines @ sortedCandidates)"
  using NumericSorter_sort_returned[of prepare convert descending lines "output"]
  by (cases descending) auto

theorem C4_empties_at_one_end_witness:
  "IntegerSorter_sort True [''10'', ''2'', '''', ''-5''] (Inr [''10'', ''2'', ''-5'', '''']) \<and>
   (\<exists>sortedCandidates keys.
      mset sortedCandidates = mset [''10'', ''2'', ''-5''] \<and>
      map (\<lambda>line. IntegerSorter_convertStringToNumber
             (IntegerSorter_prepareStringForConversion line)) sortedCandidates = map Some keys \<and>
      sorted (rev keys) \<and> [''10'', ''2'', ''-5'', ''''] = sortedCandidates @ [''''])"
  using integer_example_descending
    C4_empties_at_one_end[OF integer_example_descending[unfolded IntegerSorter_sort_def]]
  by (simp add: candidates_def emptyLines_def isEmptyLine_def evaluation)

lemma std_sort_Nil: "std_sort cmp [] ys \<longleftrightarrow> ys = []"
  by (auto simp: std_sort_def)

lemma std_sort_single: "std_sort cmp [x] ys \<longleftrightarrow> ys = [x]"
  by (auto simp: std_sort_def mset_single_iff_right)

lemma collect_all_empty:
  "\<forall>l\<in>set ls. isEmptyLine p l \<Longrightarrow> collect p c i ls ns es = Inr (ns, es @ ls)"
  by (induction ls arbitrary: i es) (simp_all add: isEmptyLine_def)

lemma NumericSorter_sort_all_empty:
  assumes "\<forall>l\<in>set lines. isEmptyLine p l"
  shows "NumericSorter_sort p c d lines result \<longleftrightarrow> result = Inr lines"
  using collect_all_empty[OF assms, of c 0 "[]" "[]"]
  by (auto simp: NumericSorter_sort.simps std_sort_Nil assemble_def)

lemma NumericSorter_sort_single:
  "NumericSorter_sort p c d [line] result \<longleftrightarrow>
     result = (if unparseable p c line then Inl 0 else Inr [line])"
proof (cases "isEmptyLine p line")
  case True
  then show ?thesis
    using NumericSorter_sort_all_empty[of "[line]" p c d result]
    by (simp add: unparseable_def isEmptyLine_def)
next
  case False
  show ?thesis
  proof (cases "c (p line)")
    case None
    with False have "collect p c 0 [line] [] [] = Inl 0" by (simp add: isEmptyLine_def)
    with None False show ?thesis
      by (simp add: NumericSorter_sort_thrown_only unparseable_def isEmptyLine_def)
  next
    case (Some n)
    with False have "collect p c 0 [line] [] [] = Inr ([(0, n)], [])"
      by (simp add: isEmptyLine_def)
    with Some False show ?thesis
      by (auto simp: NumericSorter_sort.simps std_sort_single assemble_def unparseable_def)
  qed
qed




section \<open>The specification's decimal-comma example\<close>

lemma mset_pair_cases: "mset ys = mset [a, b] \<longleftrightarrow> ys = [a, b] \<or> ys = [b, a]"
proof
  assume h: "mset ys = mset [a, b]"
  then have "length ys = length [a, b]" by (rule mset_eq_length)
  then obtain x y where ys: "ys = [x, y]"
    by (auto simp: length_Suc_conv)
  with h show "ys = [a, b] \<or> ys = [b, a]"
    by (auto simp: add_eq_conv_diff)
next
  assume "ys = [a, b] \<or> ys = [b, a]"
  then show "mset ys = mset [a, b]" by auto
qed


lemma NumericSorter_sort_returned_only:
  "collect p c 0 lines [] [] = Inr (ns, es) \<Longrightarrow>
   NumericSorter_sort p c d lines result \<longleftrightarrow>
     (\<exists>sn. std_sort (NumericSorter_less d) ns sn \<and> result = Inr (assemble d lines es sn))"
  by (auto simp: NumericSorter_sort.simps)

lemma decimal_comma_example_collect:
  "collect DecimalCommaSorter_prepareStringForConversion DecimalCommaSorter_convertStringToNumber
     0 [''3,5'', ''1,25'', ''abc''] [] [] = Inr ([(0, 7 / 2), (1, 5 / 4)], [''abc''])"
  by (simp add: evaluation)

lemma decimal_comma_example_sorted:
  "std_sort (NumericSorter_less False) [(0, 7 / 2), (1, 5 / 4 :: rat)] ys \<longleftrightarrow>
          ys = [(1, 5 / 4), (0 :: nat, 7 / 2)]"
  unfolding std_sort_def mset_pair_cases by (auto simp: NumericSorter_less_def)

lemma decimal_comma_example:
  "DecimalCommaSorter_sort False [''3,5'', ''1,25'', ''abc''] result \<longleftrightarrow>
     result = Inr [''abc'', ''1,25'', ''3,5'']"
  using NumericSorter_sort_returned_only[OF decimal_comma_example_collect, of False result]
  unfolding decimal_comma_example_sorted DecimalCommaSorter_sort_def
  by (simp add: assemble_def)


section \<open>Empty lines are never converted\<close>

lemma collect_cong_convert:
  "\<forall>s. \<not> considerStringEmpty s \<longrightarrow> c s = c' s \<Longrightarrow>
   collect p c i ls ns es = collect p c' i ls ns es"
  by (induction ls arbitrary: i ns es) (auto simp: Let_def split: option.splits)

lemma collect_cong_prepare:
  "\<forall>l\<in>set ls. p l = p' l \<Longrightarrow> collect p c i ls ns es = collect p' c i ls ns es"
  by (induction ls arbitrary: i ns es) (auto simp: Let_def split: option.splits)

lemma NumericSorter_sort_not_thrown_at_empty:
  assumes "i < length lines" and "isEmptyLine p (lines ! i)"
  shows "\<not> NumericSorter_sort p c d lines (Inl i)"
proof
  assume "NumericSorter_sort p c d lines (Inl i)"
  then obtain pre l post where "lines = pre @ l # post" "i = length pre" "unparseable p c l"
    by (auto simp: NumericSorter_sort_Inl_iff)
  then have "unparseable p c (lines ! i)" by simp
  with assms(2) show False by (simp add: unparseable_def isEmptyLine_def)
qed

lemma first_inadmissible_empty:
  "ch \<notin> set admissable \<Longrightarrow> stringTakeWhileAdmissable (ch # rest) admissable = []"
  by (simp add: stringTakeWhileAdmissable_def)

text \<open>
  C9. A line whose prepared text holds nothing but white space is an empty line of the
  numeric sorter: the call never throws its index, the outcome does not depend on what
  the conversion would do with texts that \<^verbatim>\<open>considerStringEmpty\<close> accepts (the line is
  never converted), and a returned output keeps it in the block of empty lines, apart
  from the candidates. For each of the three sorters a line whose first character is not
  admissible (a letter, say) has an empty prepared text and is such a line.
\<close>

theorem C9_empty_lines_never_converted:
  "(isEmptyLine prepare line \<longleftrightarrow> set (prepare line) \<subseteq> set whitespace) \<and>
   (i < length lines \<and> isEmptyLine prepare (lines ! i) \<longrightarrow>
      \<not> NumericSorter_sort prepare convert descending lines (Inl i)) \<and>
   ((\<forall>s. \<not> considerStringEmpty s \<longrightarrow> convert s = convert' s) \<longrightarrow>
      NumericSorter_sort prepare convert descending lines result =
      NumericSorter_sort prepare convert' descending lines result) \<and>
   (NumericSorter_sort prepare convert descending lines (Inr output) \<longrightarrow>
      (\<exists>sortedCandidates.
          (\<forall>l\<in>set sortedCandidates. \<not> isEmptyLine prepare l) \<and>
          output = (if descending then sortedCandidates @ emptyLines prepare lines
                    else emptyLines prepare lines @ sortedCandidates))) \<and>
   (ch \<notin> set (whitespace @ digits @ ''-'') \<longrightarrow>
      isEmptyLine IntegerSorter_prepareStringForConversion (ch # rest)) \<and>
   (ch \<notin> set (whitespace @ digits @ '',-'') \<longrightarrow>
      isEmptyLine DecimalCommaSorter_prepareStringForConversion (ch # rest)) \<and>
   (ch \<notin> set (whitespace @ digits @ ''.-'') \<longrightarrow>
      isEmptyLine DecimalDotSorter_prepareStringForConversion (ch # rest))"
proof (intro conjI impI)
  show "isEmptyLine prepare line \<longleftrightarrow> set (prepare line) \<subseteq> set whitespace"
    by (simp add: isEmptyLine_def considerStringEmpty_iff)
  show "\<not> NumericSorter_sort prepare convert descending lines (Inl i)"
    if "i < length lines \<and> isEmptyLine prepare (lines ! i)"
    using that by (simp add: NumericSorter_sort_not_thrown_at_empty)
  show "NumericSorter_sort prepare convert descending lines result =
        NumericSorter_sort prepare convert' descending lines result"
    if "\<forall>s. \<not> considerStringEmpty s \<longrightarrow> convert s = convert' s"
    by (simp add: NumericSorter_sort.simps collect_cong_convert[OF that])
  show "\<exists>sortedCandidates.
          (\<forall>l\<in>set sortedCandidates. \<not> isEmptyLine prepare l) \<and>
          output = (if descending then sortedCandidates @ emptyLines prepare lines
                    else emptyLines prepare lines @ sortedCandidates)"
    if "NumericSorter_sort prepare convert descending lines (Inr output)"
  proof -
    from NumericSorter_sort_returned[OF that]
    obtain cs where out: "output = (if descending then cs @ emptyLines prepare lines
                                    else emptyLines prepare lines @ cs)"
      and cs: "mset cs = mset (candidates prepare lines)"
      by blast
    from cs have "set cs = set (candidates prepare lines)" by (rule mset_eq_setD)
    then have "\<forall>l\<in>set cs. \<not> isEmptyLine prepare l" by (simp add: candidates_def)
    with out show ?thesis by blast
  qed
  show "isEmptyLine IntegerSorter_prepareStringForConversion (ch # rest)"
    if "ch \<notin> set (whitespace @ digits @ ''-'')"
    by (simp add: isEmptyLine_def IntegerSorter_prepareStringForConversion_def
          first_inadmissible_empty[OF that] considerStringEmpty_def)
  show "isEmptyLine DecimalCommaSorter_prepareStringForConversion (ch # rest)"
    if "ch \<notin> set (whitespace @ digits @ '',-'')"
    by (simp add: isEmptyLine_def DecimalCommaSorter_prepareStringForConversion_def
          first_inadmissible_empty[OF that] considerStringEmpty_def stringReplace_def)
  show "isEmptyLine DecimalDotSorter_prepareStringForConversion (ch # rest)"
    if "ch \<notin> set (whitespace @ digits @ ''.-'')"
    by (simp add: isEmptyLine_def DecimalDotSorter_prepareStringForConversion_def
          first_inadmissible_empty[OF that] considerStringEmpty_def)
qed

theorem C9_empty_lines_never_converted_witness:
  "2 < length [''3,5'', ''1,25'', ''abc''] \<and>
   isEmptyLine DecimalCommaSorter_prepareStringForConversion ([''3,5'', ''1,25'', ''abc''] ! 2) \<and>
   \<not> DecimalCommaSorter_sort False [''3,5'', ''1,25'', ''abc''] (Inl 2) \<and>
   DecimalCommaSorter_sort False [''3,5'', ''1,25'', ''abc''] (Inr [''abc'', ''1,25'', ''3,5'']) \<and>
   NumericSorter_sort DecimalCommaSorter_prepareStringForConversion
     (\<lambda>s. if considerStringEmpty s then Some 0 else stodLocale s) False
     [''3,5'', ''1,25'', ''abc''] (Inr [''abc'', ''1,25'', ''3,5'']) \<and>
   emptyLines DecimalCommaSorter_prepareStringForConversion [''3,5'', ''1,25'', ''abc''] =
     [''abc''] \<and>
   (\<exists>sortedCandidates.
      (\<forall>l\<in>set sortedCandidates. \<not> isEmptyLine DecimalCommaSorter_prepareStringForConversion l) \<and>
      [''abc'', ''1,25'', ''3,5''] =
        emptyLines DecimalCommaSorter_prepareStringForConversion [''3,5'', ''1,25'', ''abc''] @
        sortedCandidates) \<and>
   CHR ''a'' \<notin> set (whitespace @ digits @ ''-'') \<and>
   CHR ''a'' \<notin> set (whitespace @ digits @ '',-'') \<and>
   CHR ''a'' \<notin> set (whitespace @ digits @ ''.-'') \<and>
   isEmptyLine IntegerSorter_prepareStringForConversion ''abc'' \<and>
   isEmptyLine DecimalCommaSorter_prepareStringForConversion ''abc'' \<and>
   isEmptyLine DecimalDotSorter_prepareStringForConversion ''abc''"
proof -
  let ?L = "[''3,5'', ''1,25'', ''abc'']"
  let ?O = "[''abc'', ''1,25'', ''3,5'']"
  let ?p = DecimalCommaSorter_prepareStringForConversion
  let ?c = DecimalCommaSorter_convertStringToNumber
  let ?c' = "\<lambda>s. if considerStringEmpty s then Some 0 else stodLocale s"
  note inst = C9_empty_lines_never_converted[of ?p _ 2 ?L ?c False ?c' "Inr ?O" ?O
      "CHR ''a''" "''bc''"]
  have l: "2 < length ?L" by simp
  have e: "isEmptyLine ?p (?L ! 2)"
    by (simp add: isEmptyLine_def evaluation)
  have agree: "\<forall>s. \<not> considerStringEmpty s \<longrightarrow> ?c s = ?c' s"
    by (simp add: DecimalCommaSorter_convertStringToNumber_def)
  have a: "CHR ''a'' \<notin> set (whitespace @ digits @ ''-'')"
    "CHR ''a'' \<notin> set (whitespace @ digits @ '',-'')"
    "CHR ''a'' \<notin> set (whitespace @ digits @ ''.-'')"
    by (simp_all add: whitespace_def digits_def)
  have el: "emptyLines ?p ?L = [''abc'']"
    by (simp add: emptyLines_def isEmptyLine_def evaluation)
  have s: "NumericSorter_sort ?p ?c False ?L (Inr ?O)"
    using decimal_comma_example[of "Inr ?O"] by (simp add: DecimalCommaSorter_sort_def)
  from inst l e have 1: "\<not> NumericSorter_sort ?p ?c False ?L (Inl 2)" by blast
  from inst agree s have 2: "NumericSorter_sort ?p ?c' False ?L (Inr ?O)" by blast
  from inst s have "\<exists>sc. (\<forall>l\<in>set sc. \<not> isEmptyLine ?p l) \<and>
      ?O = (if False then sc @ emptyLines ?p ?L else emptyLines ?p ?L @ sc)" by blast
  then have 3: "\<exists>sc. (\<forall>l\<in>set sc. \<not> isEmptyLine ?p l) \<and> ?O = emptyLines ?p ?L @ sc"
    by (simp only: if_False)
  from inst a have 4: "isEmptyLine IntegerSorter_prepareStringForConversion ''abc''"
    "isEmptyLine DecimalCommaSorter_prepareStringForConversion ''abc''"
    "isEmptyLine DecimalDotSorter_prepareStringForConversion ''abc''" by blast+
  from l e 1 s 2 el 3 a 4 show ?thesis
    unfolding DecimalCommaSorter_sort_def by (intro conjI)
qed

text \<open>
  C6, as the code has it. Under the decimal-comma sorter the prepared text of
  \<^verbatim>\<open>"abc"\<close> is empty, so the line is an empty line and is not converted: the ascending
  sort of \<^verbatim>\<open>["3,5", "1,25", "abc"]\<close> returns \<^verbatim>\<open>["abc", "1,25", "3,5"]\<close> and
  nothing else.
\<close>

theorem C6_decimal_comma_example_returns:
  "DecimalCommaSorter_sort False [''3,5'', ''1,25'', ''abc''] result \<longleftrightarrow>
     result = Inr [''abc'', ''1,25'', ''3,5'']"
  by (rule decimal_comma_example)

theorem C6_decimal_comma_example_counterexample:
  "\<not> DecimalCommaSorter_sort False [''3,5'', ''1,25'', ''abc''] (Inl 2) \<and>
   DecimalCommaSorter_sort False [''3,5'', ''1,25'', ''abc''] (Inr [''abc'', ''1,25'', ''3,5''])"
  by (simp add: decimal_comma_example)

section \<open>Ties and direction\<close>








text \<open>
  On short ranges the implementation keeps equal keys in place: two tied candidates
  come back in their original order, in both directions.
\<close>

lemma libstdcxx_sort_two_tied:
  "libstdcxx_sort (NumericSorter_less False) [(0, 1), (1 :: nat, 1 :: int)] = [(0, 1), (1, 1)]"
  "libstdcxx_sort (NumericSorter_less True) [(0, 2), (1 :: nat, 2 :: int)] = [(0, 2), (1, 2)]"
  by code_simp+





lemma sorted_rev_unique:
  fixes ka kd :: "'a::linorder list"
  assumes "mset ka = mset kd" "sorted ka" "sorted (rev kd)"
  shows "kd = rev ka"
proof -
  from assms(1) have "mset (rev kd) = mset ka" by simp
  with assms(2,3) have "rev kd = ka"
    by (metis properties_for_sort)
  then show ?thesis by (metis rev_rev_ident)
qed

lemma NumericSorter_sort_Inl_direction:
  "NumericSorter_sort p c False lines (Inl i) \<longleftrightarrow> NumericSorter_sort p c True lines (Inl i)"
  by (simp add: NumericSorter_sort_Inl_iff)

lemma NumericSorter_sort_directions:
  assumes a: "NumericSorter_sort p c False lines (Inr asc)"
    and d: "NumericSorter_sort p c True lines (Inr desc)"
  shows "\<exists>ca cd. asc = emptyLines p lines @ ca \<and> desc = cd @ emptyLines p lines \<and>
           mset cd = mset ca \<and> map (\<lambda>l. c (p l)) cd = rev (map (\<lambda>l. c (p l)) ca)"
proof -
  from NumericSorter_sort_returned[OF a]
  obtain ca ka where ca: "asc = emptyLines p lines @ ca" "mset ca = mset (candidates p lines)"
    "map (\<lambda>l. c (p l)) ca = map Some ka" "sorted ka"
    by auto
  from NumericSorter_sort_returned[OF d]
  obtain cd kd where cd: "desc = cd @ emptyLines p lines" "mset cd = mset (candidates p lines)"
    "map (\<lambda>l. c (p l)) cd = map Some kd" "sorted (rev kd)"
    by auto
  from ca(2) cd(2) have m: "mset cd = mset ca" by simp
  then have "mset (map (\<lambda>l. c (p l)) cd) = mset (map (\<lambda>l. c (p l)) ca)"
    by (metis mset_map)
  with ca(3) cd(3) have "mset (map Some kd) = mset (map Some ka)" by simp
  then have "mset (map the (map Some kd)) = mset (map the (map Some ka))"
    by (metis mset_map)
  then have "mset ka = mset kd" by (simp add: o_def)
  from sorted_rev_unique[OF this ca(4) cd(4)] have "kd = rev ka" .
  with ca(3) cd(3) have "map (\<lambda>l. c (p l)) cd = rev (map (\<lambda>l. c (p l)) ca)"
    by (simp add: rev_map)
  with ca(1) cd(1) m show ?thesis by blast
qed

text \<open>
  C8, as the code has it. The descending output of the lexicographic sorter is the
  reverse of its ascending output. A numeric sorter throws the same index in both
  directions; when it returns, the empty lines stand first in the ascending output and
  last in the descending one, in the same order, the candidates are the same lines, and
  the sequence of their keys in the descending output is the reverse of the sequence in
  the ascending output. Nothing is promised about the order of candidates with equal
  keys, in either direction.
\<close>

theorem C8_direction_symmetry:
  "(LexicographicSorter_sort False lines (Inr asc) \<and> LexicographicSorter_sort True lines (Inr desc)
      \<longrightarrow> desc = rev asc) \<and>
   (NumericSorter_sort prepare convert False lines (Inl i) \<longleftrightarrow>
      NumericSorter_sort prepare convert True lines (Inl i)) \<and>
   (NumericSorter_sort prepare convert False lines (Inr asc) \<and>
    NumericSorter_sort prepare convert True lines (Inr desc) \<longrightarrow>
      (\<exists>ascCandidates descCandidates.
          asc = emptyLines prepare lines @ ascCandidates \<and>
          desc = descCandidates @ emptyLines prepare lines \<and>
          mset descCandidates = mset ascCandidates \<and>
          map (\<lambda>line. convert (prepare line)) descCandidates =
            rev (map (\<lambda>line. convert (prepare line)) ascCandidates)))"
proof (intro conjI impI)
  show "desc = rev asc"
    if "LexicographicSorter_sort False lines (Inr asc) \<and>
        LexicographicSorter_sort True lines (Inr desc)"
    using that by (simp add: LexicographicSorter_sort_iff)
  show "NumericSorter_sort prepare convert False lines (Inl i) \<longleftrightarrow>
      NumericSorter_sort prepare convert True lines (Inl i)"
    by (rule NumericSorter_sort_Inl_direction)
  show "\<exists>ascCandidates descCandidates.
          asc = emptyLines prepare lines @ ascCandidates \<and>
          desc = descCandidates @ emptyLines prepare lines \<and>
          mset descCandidates = mset ascCandidates \<and>
          map (\<lambda>line. convert (prepare line)) descCandidates =
            rev (map (\<lambda>line. convert (prepare line)) ascCandidates)"
    if "NumericSorter_sort prepare convert False lines (Inr asc) \<and>
        NumericSorter_sort prepare convert True lines (Inr desc)"
    using that by (blast intro: NumericSorter_sort_directions)
qed

lemma lex_example_ascending:
  "LexicographicSorter_sort False [''banana'', ''apple'', ''cherry'']
     (Inr [''apple'', ''banana'', ''cherry''])"
  by (simp add: LexicographicSorter_sort_def std_sort_def LexicographicSorter_less_def compare_def)

theorem C8_direction_symmetry_witness:
  "LexicographicSorter_sort False [''banana'', ''apple'', ''cherry'']
     (Inr [''apple'', ''banana'', ''cherry'']) \<and>
   LexicographicSorter_sort True [''banana'', ''apple'', ''cherry'']
     (Inr [''cherry'', ''banana'', ''apple'']) \<and>
   [''cherry'', ''banana'', ''apple''] = rev [''apple'', ''banana'', ''cherry''] \<and>
   IntegerSorter_sort False [''10'', ''2'', '''', ''-5''] (Inr ['''', ''-5'', ''2'', ''10'']) \<and>
   IntegerSorter_sort True [''10'', ''2'', '''', ''-5''] (Inr [''10'', ''2'', ''-5'', '''']) \<and>
   (\<exists>ascCandidates descCandidates.
      ['''', ''-5'', ''2'', ''10''] =
        emptyLines IntegerSorter_prepareStringForConversion [''10'', ''2'', '''', ''-5''] @
        ascCandidates \<and>
      [''10'', ''2'', ''-5'', ''''] =
        descCandidates @
        emptyLines IntegerSorter_prepareStringForConversion [''10'', ''2'', '''', ''-5''] \<and>
      mset descCandidates = mset ascCandidates \<and>
      map (\<lambda>line. IntegerSorter_convertStringToNumber
             (IntegerSorter_prepareStringForConversion line)) descCandidates =
        rev (map (\<lambda>line. IntegerSorter_convertStringToNumber
                    (IntegerSorter_prepareStringForConversion line)) ascCandidates))"
proof -
  note lex = C8_direction_symmetry[of "[''banana'', ''apple'', ''cherry'']"
      "[''apple'', ''banana'', ''cherry'']" "[''cherry'', ''banana'', ''apple'']"]
  note num = C8_direction_symmetry[of "[''10'', ''2'', '''', ''-5'']"
      "['''', ''-5'', ''2'', ''10'']" "[''10'', ''2'', ''-5'', '''']"
      IntegerSorter_prepareStringForConversion IntegerSorter_convertStringToNumber]
  from lex lex_example_ascending lex_example
  have 1: "[''cherry'', ''banana'', ''apple''] = rev [''apple'', ''banana'', ''cherry'']"
    by blast
  from num integer_example_ascending[unfolded IntegerSorter_sort_def]
    integer_example_descending[unfolded IntegerSorter_sort_def]
  have 2: "\<exists>ascCandidates descCandidates.
      ['''', ''-5'', ''2'', ''10''] =
        emptyLines IntegerSorter_prepareStringForConversion [''10'', ''2'', '''', ''-5''] @
        ascCandidates \<and>
      [''10'', ''2'', ''-5'', ''''] =
        descCandidates @
        emptyLines IntegerSorter_prepareStringForConversion [''10'', ''2'', '''', ''-5''] \<and>
      mset descCandidates = mset ascCandidates \<and>
      map (\<lambda>line. IntegerSorter_convertStringToNumber
             (IntegerSorter_prepareStringForConversion line)) descCandidates =
        rev (map (\<lambda>line. IntegerSorter_convertStringToNumber
                    (IntegerSorter_prepareStringForConversion line)) ascCandidates)"
    by blast
  from lex_example_ascending lex_example 1 integer_example_ascending integer_example_descending 2
  show ?thesis by (intro conjI)
qed

text \<open>
  The same holds when descending: of seventeen lines with the key 2 the descending sort
  built on libstdc++ returns the tied group in another order than the original one.
\<close>

lemma tied_descending_collect:
  "collect IntegerSorter_prepareStringForConversion IntegerSorter_convertStringToNumber 0
      [''2a'', ''2b'', ''2c'', ''2d'', ''2e'', ''2f'', ''2g'', ''2h'', ''2i'', ''2j'', ''2k'',
       ''2l'', ''2m'', ''2n'', ''2o'', ''2p'', ''2q''] [] [] =
   Inr (
         [(0, 2), (1, 2), (2, 2), (3, 2), (4, 2), (5, 2), (6, 2), (7, 2), (8, 2), (9, 2),
          (10, 2), (11, 2), (12, 2), (13, 2), (14, 2), (15, 2), (16, 2)], [])"
  by (simp add: evaluation)

lemma tied_descending_sorted:
  "libstdcxx_sort (NumericSorter_less True)
         [(0, 2), (1, 2), (2, 2), (3, 2), (4, 2), (5, 2), (6, 2), (7, 2), (8, 2), (9, 2),
          (10, 2), (11, 2), (12, 2), (13, 2), (14, 2), (15, 2), (16 :: nat, 2 :: int)] =
         [(8, 2), (16, 2), (15, 2), (14, 2), (13, 2), (12, 2), (11, 2), (10, 2), (9, 2),
          (0, 2), (7, 2), (6, 2), (5, 2), (4, 2), (3, 2), (2, 2), (1, 2)]"
  by code_simp

lemma tied_descending_assembled:
  "assemble True
      [''2a'', ''2b'', ''2c'', ''2d'', ''2e'', ''2f'', ''2g'', ''2h'', ''2i'', ''2j'', ''2k'',
       ''2l'', ''2m'', ''2n'', ''2o'', ''2p'', ''2q''] []
         [(8, 2), (16, 2), (15, 2), (14, 2), (13, 2), (12, 2), (11, 2), (10, 2), (9, 2),
          (0, 2), (7, 2), (6, 2), (5, 2), (4, 2), (3, 2), (2, 2), (1 :: nat, 2 :: int)] =
      [''2i'', ''2q'', ''2p'', ''2o'', ''2n'', ''2m'', ''2l'', ''2k'', ''2j'', ''2a'', ''2h'',
       ''2g'', ''2f'', ''2e'', ''2d'', ''2c'', ''2b'']"
  by (simp add: assemble_def)

theorem C8_tied_group_counterexample:
  "collect IntegerSorter_prepareStringForConversion IntegerSorter_convertStringToNumber 0
      [''2a'', ''2b'', ''2c'', ''2d'', ''2e'', ''2f'', ''2g'', ''2h'', ''2i'', ''2j'', ''2k'',
       ''2l'', ''2m'', ''2n'', ''2o'', ''2p'', ''2q''] [] [] =
   Inr (
         [(0, 2), (1, 2), (2, 2), (3, 2), (4, 2), (5, 2), (6, 2), (7, 2), (8, 2), (9, 2),
          (10, 2), (11, 2), (12, 2), (13, 2), (14, 2), (15, 2), (16, 2)], []) \<and>
   assemble True
      [''2a'', ''2b'', ''2c'', ''2d'', ''2e'', ''2f'', ''2g'', ''2h'', ''2i'', ''2j'', ''2k'',
       ''2l'', ''2m'', ''2n'', ''2o'', ''2p'', ''2q''] []
     (libstdcxx_sort (NumericSorter_less True)
         [(0, 2), (1, 2), (2, 2), (3, 2), (4, 2), (5, 2), (6, 2), (7, 2), (8, 2), (9, 2),
          (10, 2), (11, 2), (12, 2), (13, 2), (14, 2), (15, 2), (16 :: nat, 2 :: int)]) =
      [''2i'', ''2q'', ''2p'', ''2o'', ''2n'', ''2m'', ''2l'', ''2k'', ''2j'', ''2a'', ''2h'',
       ''2g'', ''2f'', ''2e'', ''2d'', ''2c'', ''2b''] \<and>
   IntegerSorter_sort True
      [''2a'', ''2b'', ''2c'', ''2d'', ''2e'', ''2f'', ''2g'', ''2h'', ''2i'', ''2j'', ''2k'',
       ''2l'', ''2m'', ''2n'', ''2o'', ''2p'', ''2q'']
     (Inr
      [''2i'', ''2q'', ''2p'', ''2o'', ''2n'', ''2m'', ''2l'', ''2k'', ''2j'', ''2a'', ''2h'',
       ''2g'', ''2f'', ''2e'', ''2d'', ''2c'', ''2b'']) \<and>
   filter (\<lambda>line. IntegerSorter_convertStringToNumber (IntegerSorter_prepareStringForConversion line) = Some 2)
      [''2i'', ''2q'', ''2p'', ''2o'', ''2n'', ''2m'', ''2l'', ''2k'', ''2j'', ''2a'', ''2h'',
       ''2g'', ''2f'', ''2e'', ''2d'', ''2c'', ''2b''] \<noteq>
   filter (\<lambda>line. IntegerSorter_convertStringToNumber (IntegerSorter_prepareStringForConversion line) = Some 2)
      [''2a'', ''2b'', ''2c'', ''2d'', ''2e'', ''2f'', ''2g'', ''2h'', ''2i'', ''2j'', ''2k'',
       ''2l'', ''2m'', ''2n'', ''2o'', ''2p'', ''2q'']"
proof -
  have "std_sort (NumericSorter_less True)
         [(0, 2), (1, 2), (2, 2), (3, 2), (4, 2), (5, 2), (6, 2), (7, 2), (8, 2), (9, 2),
          (10, 2), (11, 2), (12, 2), (13, 2), (14, 2), (15, 2), (16 :: nat, 2 :: int)]
         [(8, 2), (16, 2), (15, 2), (14, 2), (13, 2), (12, 2), (11, 2), (10, 2), (9, 2),
          (0, 2), (7, 2), (6, 2), (5, 2), (4, 2), (3, 2), (2, 2), (1, 2)]"
    by (simp add: std_sort_def NumericSorter_less_def)
  from NumericSorter_sort.returned[OF tied_descending_collect this]
  have "IntegerSorter_sort True
      [''2a'', ''2b'', ''2c'', ''2d'', ''2e'', ''2f'', ''2g'', ''2h'', ''2i'', ''2j'', ''2k'',
       ''2l'', ''2m'', ''2n'', ''2o'', ''2p'', ''2q'']
     (Inr
      [''2i'', ''2q'', ''2p'', ''2o'', ''2n'', ''2m'', ''2l'', ''2k'', ''2j'', ''2a'', ''2h'',
       ''2g'', ''2f'', ''2e'', ''2d'', ''2c'', ''2b''])"
    unfolding tied_descending_assembled IntegerSorter_sort_def .
  moreover have "filter (\<lambda>line. IntegerSorter_convertStringToNumber (IntegerSorter_prepareStringForConversion line) = Some 2)
      [''2i'', ''2q'', ''2p'', ''2o'', ''2n'', ''2m'', ''2l'', ''2k'', ''2j'', ''2a'', ''2h'',
       ''2g'', ''2f'', ''2e'', ''2d'', ''2c'', ''2b''] \<noteq>
   filter (\<lambda>line. IntegerSorter_convertStringToNumber (IntegerSorter_prepareStringForConversion line) = Some 2)
      [''2a'', ''2b'', ''2c'', ''2d'', ''2e'', ''2f'', ''2g'', ''2h'', ''2i'', ''2j'', ''2k'',
       ''2l'', ''2m'', ''2n'', ''2o'', ''2p'', ''2q'']"
    by (simp add: evaluation)
  moreover note tied_descending_collect
  moreover have "assemble True
      [''2a'', ''2b'', ''2c'', ''2d'', ''2e'', ''2f'', ''2g'', ''2h'', ''2i'', ''2j'', ''2k'',
       ''2l'', ''2m'', ''2n'', ''2o'', ''2p'', ''2q''] []
     (libstdcxx_sort (NumericSorter_less True)
         [(0, 2), (1, 2), (2, 2), (3, 2), (4, 2), (5, 2), (6, 2), (7, 2), (8, 2), (9, 2),
          (10, 2), (11, 2), (12, 2), (13, 2), (14, 2), (15, 2), (16 :: nat, 2 :: int)]) =
      [''2i'', ''2q'', ''2p'', ''2o'', ''2n'', ''2m'', ''2l'', ''2k'', ''2j'', ''2a'', ''2h'',
       ''2g'', ''2f'', ''2e'', ''2d'', ''2c'', ''2b'']"
    by (simp only: tied_descending_sorted tied_descending_assembled)
  ultimately show ?thesis by (intro conjI)
qed

section \<open>Decimal comma against decimal dot\<close>

lemma stringReplace_absent:
  "c \<notin> set subject \<Longrightarrow> stringReplace subject [c] replace = subject"
  by (induction subject) (auto simp: stringReplace_def)

lemma decimal_prepare_agree:
  assumes "CHR '','' \<notin> set line" and "CHR ''.'' \<notin> set line"
  shows "DecimalCommaSorter_prepareStringForConversion line =
         DecimalDotSorter_prepareStringForConversion line"
proof -
  let ?comma = "stringTakeWhileAdmissable line (whitespace @ digits @ '',-'')"
  have "?comma = takeWhile (\<lambda>c. c \<in> set (whitespace @ digits @ '',-'')) line"
    by (rule stringTakeWhileAdmissable_takeWhile)
  also have "\<dots> = takeWhile (\<lambda>c. c \<in> set (whitespace @ digits @ ''.-'')) line"
    using assms by (intro takeWhile_cong) auto
  also have "\<dots> = stringTakeWhileAdmissable line (whitespace @ digits @ ''.-'')"
    by (rule stringTakeWhileAdmissable_takeWhile[symmetric])
  finally have eq: "?comma = stringTakeWhileAdmissable line (whitespace @ digits @ ''.-'')" .
  have "set ?comma \<subseteq> set line"
    unfolding stringTakeWhileAdmissable_takeWhile by (auto dest: set_takeWhileD)
  with assms(1) have "CHR '','' \<notin> set ?comma" by blast
  then have "stringReplace ?comma '','' ''.'' = ?comma" by (rule stringReplace_absent)
  with eq show ?thesis
    by (simp add: DecimalCommaSorter_prepareStringForConversion_def
          DecimalDotSorter_prepareStringForConversion_def)
qed

lemma NumericSorter_sort_cong_prepare:
  "\<forall>l\<in>set lines. p l = p' l \<Longrightarrow>
   NumericSorter_sort p c d lines result \<longleftrightarrow> NumericSorter_sort p' c d lines result"
  by (simp add: NumericSorter_sort.simps collect_cong_prepare[of lines p p'])

text \<open>
  C10. On lines that hold neither a comma nor a period the decimal-comma sorter and the
  decimal-dot sorter have the same outcomes: the same outputs and the same thrown index,
  in both directions. The two sorters prepare such lines to the same text, so this holds
  whatever the conversion does.
\<close>

theorem C10_decimal_sorters_agree:
  "\<forall>line\<in>set lines. CHR '','' \<notin> set line \<and> CHR ''.'' \<notin> set line \<Longrightarrow>
   (DecimalCommaSorter_sort descending lines result \<longleftrightarrow>
    DecimalDotSorter_sort descending lines result) \<and>
   (NumericSorter_sort DecimalCommaSorter_prepareStringForConversion convert descending lines
      result \<longleftrightarrow>
    NumericSorter_sort DecimalDotSorter_prepareStringForConversion convert descending lines
      result)"
proof -
  assume "\<forall>line\<in>set lines. CHR '','' \<notin> set line \<and> CHR ''.'' \<notin> set line"
  then have "\<forall>line\<in>set lines. DecimalCommaSorter_prepareStringForConversion line =
      DecimalDotSorter_prepareStringForConversion line"
    by (simp add: decimal_prepare_agree)
  then have "NumericSorter_sort DecimalCommaSorter_prepareStringForConversion c descending lines
        result \<longleftrightarrow>
      NumericSorter_sort DecimalDotSorter_prepareStringForConversion c descending lines result"
    for c :: "generic_string \<Rightarrow> 'n::linorder option"
    by (rule NumericSorter_sort_cong_prepare)
  note agree = this[of convert] this[of stodLocale]
  have "DecimalCommaSorter_convertStringToNumber = stodLocale"
    "DecimalDotSorter_convertStringToNumber = stodLocale"
    by (auto simp: DecimalCommaSorter_convertStringToNumber_def
          DecimalDotSorter_convertStringToNumber_def)
  with agree show ?thesis
    by (simp add: DecimalCommaSorter_sort_def DecimalDotSorter_sort_def)
qed

lemma decimal_plain_example_collect:
  "collect DecimalCommaSorter_prepareStringForConversion DecimalCommaSorter_convertStringToNumber
     0 [''10'', ''-2 apples'', ''''] [] [] = Inr ([(0, 10), (1, - 2)], [''''])"
  by (simp add: evaluation)

lemma decimal_plain_example:
  "DecimalCommaSorter_sort True [''10'', ''-2 apples'', ''''] (Inr [''10'', ''-2 apples'', ''''])"
proof -
  have "std_sort (NumericSorter_less True) [(0, 10), (1, - 2 :: rat)] [(0, 10), (1 :: nat, - 2)]"
    by (simp add: std_sort_def NumericSorter_less_def)
  from NumericSorter_sort.returned[OF decimal_plain_example_collect this]
  show ?thesis by (simp add: DecimalCommaSorter_sort_def assemble_def)
qed

theorem C10_decimal_sorters_agree_witness:
  "CHR '','' \<notin> set ''10'' \<and> CHR ''.'' \<notin> set ''10'' \<and>
   CHR '','' \<notin> set ''-2 apples'' \<and> CHR ''.'' \<notin> set ''-2 apples'' \<and>
   DecimalCommaSorter_sort True [''10'', ''-2 apples'', ''''] (Inr [''10'', ''-2 apples'', '''']) \<and>
   DecimalDotSorter_sort True [''10'', ''-2 apples'', ''''] (Inr [''10'', ''-2 apples'', ''''])"
proof -
  have h: "\<forall>line\<in>set [''10'', ''-2 apples'', '''']. CHR '','' \<notin> set line \<and> CHR ''.'' \<notin> set line"
    by simp
  from C10_decimal_sorters_agree[OF h, of True "Inr [''10'', ''-2 apples'', '''']"]
    decimal_plain_example
  have "DecimalDotSorter_sort True [''10'', ''-2 apples'', ''''] (Inr [''10'', ''-2 apples'', ''''])"
    by blast
  with decimal_plain_example h show ?thesis by simp
qed

section \<open>IntegerSorter::convertStringToNumber\<close>

lemma foldl_digits:
  "foldl (\<lambda>acc c. 10 * acc + digit_value c) a ds = a * 10 ^ length ds + decimal_value ds"
  by (induction ds arbitrary: a) (simp_all add: algebra_simps)

lemma digits_value_decimal: "digits_value ds = decimal_value ds"
  by (simp add: digits_value_def foldl_digits)

lemma isdigit_not_space_sign:
  "isdigit c \<Longrightarrow> \<not> isspace c \<and> c \<noteq> CHR ''-'' \<and> c \<noteq> CHR ''+''"
  by (auto simp: isdigit_def isspace_def)

lemma strip_sign_decomp:
  "\<exists>sign. sign \<in> set ['''', ''-'', ''+''] \<and> t = sign @ snd (strip_sign t) \<and>
     fst (strip_sign t) = (sign = ''-'') \<and>
     (sign = '''' \<longrightarrow> (case t of [] \<Rightarrow> True | c # _ \<Rightarrow> c \<noteq> CHR ''-'' \<and> c \<noteq> CHR ''+''))"
  by (cases t) auto

lemma strip_sign_digits:
  assumes "sign \<in> set ['''', ''-'', ''+'']" "ds \<noteq> []" "list_all isdigit ds"
  shows "strip_sign (sign @ ds @ rest) = (sign = ''-'', ds @ rest)"
proof -
  from assms(2,3) obtain d ds' where ds: "ds = d # ds'" "isdigit d"
    by (cases ds) auto
  with isdigit_not_space_sign[of d] assms(1) show ?thesis by auto
qed

lemma takeWhile_digits:
  assumes "list_all isdigit ds" "case rest of [] \<Rightarrow> True | c # _ \<Rightarrow> \<not> isdigit c"
  shows "takeWhile isdigit (ds @ rest) = ds"
proof -
  from assms(2) have "takeWhile isdigit rest = []" by (cases rest) auto
  with assms(1) show ?thesis by (simp add: takeWhile_append2 list_all_iff)
qed

lemma dropWhile_space_numeral:
  assumes "list_all isspace ws" "sign \<in> set ['''', ''-'', ''+'']" "ds \<noteq> []" "list_all isdigit ds"
  shows "dropWhile isspace (ws @ sign @ ds @ rest) = sign @ ds @ rest"
proof -
  from assms(3,4) obtain d ds' where ds: "ds = d # ds'" "isdigit d"
    by (cases ds) auto
  have "\<not> isspace (hd (sign @ ds @ rest))"
    using assms(2) ds isdigit_not_space_sign[of d] by (auto simp: isspace_def)
  moreover have "sign @ ds @ rest \<noteq> []" using assms(3) by simp
  ultimately have "dropWhile isspace (sign @ ds @ rest) = sign @ ds @ rest"
    by (cases "sign @ ds @ rest") auto
  with assms(1) show ?thesis by (simp add: dropWhile_append2 list_all_iff)
qed

lemma stoll_numeral:
  assumes "list_all isspace ws" "sign \<in> set ['''', ''-'', ''+'']" "ds \<noteq> []" "list_all isdigit ds"
    "case rest of [] \<Rightarrow> True | c # _ \<Rightarrow> \<not> isdigit c"
  shows "stoll (ws @ sign @ ds @ rest) =
    (let v = (if sign = ''-'' then - int (decimal_value ds) else int (decimal_value ds))
     in if v < - (2 ^ 63) \<or> 2 ^ 63 - 1 < v then None else Some v)"
  using assms(3)
  by (simp add: stoll_def dropWhile_space_numeral[OF assms(1-4)] strip_sign_digits[OF assms(2-4)]
        takeWhile_digits[OF assms(4,5)] digits_value_decimal Let_def)

lemma dropWhile_head: "case dropWhile P xs of [] \<Rightarrow> True | c # _ \<Rightarrow> \<not> P c"
  by (induction xs) auto

lemma stoll_Some_decomp:
  assumes "stoll s = Some key"
  shows "\<exists>ws sign ds rest. s = ws @ sign @ ds @ rest \<and> list_all isspace ws \<and>
           sign \<in> set ['''', ''-'', ''+''] \<and> ds \<noteq> [] \<and> list_all isdigit ds \<and>
           (case rest of [] \<Rightarrow> True | c # _ \<Rightarrow> \<not> isdigit c)"
proof -
  let ?t = "dropWhile isspace s"
  let ?r = "snd (strip_sign ?t)"
  obtain sign where sign: "sign \<in> set ['''', ''-'', ''+'']" "?t = sign @ ?r"
    using strip_sign_decomp[of ?t] by blast
  from assms have ne: "takeWhile isdigit ?r \<noteq> []"
    by (auto simp: stoll_def Let_def split_def split: if_splits)
  have "s = takeWhile isspace s @ ?t" by simp
  also have "?t = sign @ takeWhile isdigit ?r @ dropWhile isdigit ?r"
    using sign(2) by simp
  finally have "s = takeWhile isspace s @ sign @ takeWhile isdigit ?r @ dropWhile isdigit ?r" .
  moreover have "list_all isspace (takeWhile isspace s)"
    by (auto simp: list_all_iff dest: set_takeWhileD)
  moreover have "list_all isdigit (takeWhile isdigit ?r)"
    by (auto simp: list_all_iff dest: set_takeWhileD)
  moreover have "case dropWhile isdigit ?r of [] \<Rightarrow> True | c # _ \<Rightarrow> \<not> isdigit c"
    by (rule dropWhile_head)
  ultimately show ?thesis using sign(1) ne by blast
qed


lemma stoll_range: "stoll s = Some key \<Longrightarrow> - (2 ^ 63) \<le> key \<and> key \<le> 2 ^ 63 - 1"
  by (auto simp: stoll_def Let_def split_def split: if_splits)

text \<open>
  C5, as the code has it. The integer conversion reads a numeral at the front of the
  prepared text: white space, an optional sign, and the longest run of digits. The key is
  the base-10 value of the digits, negated after a minus sign, and it lies in the range
  of a signed 64-bit integer. Whatever follows the numeral is ignored. The conversion
  fails exactly when the text has no such numeral or the value is out of that range.
\<close>

theorem C5_integer_conversion:
  "IntegerSorter_convertStringToNumber input = Some key \<longleftrightarrow>
     (\<exists>ws sign ds rest.
        input = ws @ sign @ ds @ rest \<and> list_all isspace ws \<and>
        sign \<in> set ['''', ''-'', ''+''] \<and> ds \<noteq> [] \<and> list_all isdigit ds \<and>
        (case rest of [] \<Rightarrow> True | c # _ \<Rightarrow> \<not> isdigit c) \<and>
        key = (if sign = ''-'' then - int (decimal_value ds) else int (decimal_value ds)) \<and>
        - (2 ^ 63) \<le> key \<and> key \<le> 2 ^ 63 - 1)"
  (is "?L \<longleftrightarrow> ?R")
proof
  assume L: ?L
  then have s: "stoll input = Some key" by (simp add: IntegerSorter_convertStringToNumber_def)
  from stoll_Some_decomp[OF s] obtain ws sign ds rest where
    d: "input = ws @ sign @ ds @ rest" "list_all isspace ws" "sign \<in> set ['''', ''-'', ''+'']"
      "ds \<noteq> []" "list_all isdigit ds" "case rest of [] \<Rightarrow> True | c # _ \<Rightarrow> \<not> isdigit c"
    by blast
  from s stoll_numeral[OF d(2-6)] d(1)
  have "key = (if sign = ''-'' then - int (decimal_value ds) else int (decimal_value ds))"
    by (auto simp: Let_def split: if_splits)
  with d stoll_range[OF s] show ?R by blast
next
  assume ?R
  then obtain ws sign ds rest where
    d: "input = ws @ sign @ ds @ rest" "list_all isspace ws" "sign \<in> set ['''', ''-'', ''+'']"
      "ds \<noteq> []" "list_all isdigit ds" "case rest of [] \<Rightarrow> True | c # _ \<Rightarrow> \<not> isdigit c"
    and k: "key = (if sign = ''-'' then - int (decimal_value ds) else int (decimal_value ds))"
      "- (2 ^ 63) \<le> key" "key \<le> 2 ^ 63 - 1"
    by blast
  from stoll_numeral[OF d(2-6)] d(1) k show ?L
    by (auto simp: IntegerSorter_convertStringToNumber_def Let_def)
qed

theorem C5_trailing_text_counterexample:
  "IntegerSorter_prepareStringForConversion ''1-2'' = ''1-2'' \<and>
   \<not> considerStringEmpty ''1-2'' \<and>
   \<not> spec_integer_text ''1-2'' \<and>
   IntegerSorter_convertStringToNumber ''1-2'' = Some 1 \<and>
   IntegerSorter_sort False [''1-2''] (Inr [''1-2''])"
proof -
  have "\<not> unparseable IntegerSorter_prepareStringForConversion IntegerSorter_convertStringToNumber
          ''1-2''"
    by (simp add: unparseable_def evaluation)
  then have "IntegerSorter_sort False [''1-2''] (Inr [''1-2''])"
    by (simp add: IntegerSorter_sort_def NumericSorter_sort_single)
  then show ?thesis
    by (simp add: evaluation spec_integer_text_def)
qed

section \<open>Further facts about empty lines\<close>

text \<open>
  For the lexicographic sorter an empty line is the empty text: lines that are all
  empty come back unchanged.
\<close>

lemma LexicographicSorter_sort_all_empty:
  assumes "\<forall>l\<in>set lines. l = []"
  shows "LexicographicSorter_sort d lines result \<longleftrightarrow> result = Inr lines"
proof -
  from assms have r: "lines = replicate (length lines) []"
    by (simp add: replicate_length_same)
  have "sorted (replicate (length lines) ([] :: generic_string))" by (simp add: sorted_replicate)
  with r have "sorted lines" by simp
  then have "sort lines = lines" by (rule sort_key_id_if_sorted[where f = "\<lambda>x. x", simplified])
  moreover have "rev lines = lines" by (subst r, subst (2) r, simp)
  ultimately show ?thesis by (simp add: LexicographicSorter_sort_iff)
qed

text \<open>
  In terms of the admissible leading run: a line is an empty line of a sorter exactly
  when its run of admissible characters holds nothing but white space.
\<close>

lemma isEmptyLine_leading_run:
  "isEmptyLine IntegerSorter_prepareStringForConversion line \<longleftrightarrow>
     set (takeWhile (\<lambda>c. c \<in> set (whitespace @ digits @ ''-'')) line) \<subseteq> set whitespace"
  "isEmptyLine DecimalCommaSorter_prepareStringForConversion line \<longleftrightarrow>
     set (takeWhile (\<lambda>c. c \<in> set (whitespace @ digits @ '',-'')) line) \<subseteq> set whitespace"
  "isEmptyLine DecimalDotSorter_prepareStringForConversion line \<longleftrightarrow>
     set (takeWhile (\<lambda>c. c \<in> set (whitespace @ digits @ ''.-'')) line) \<subseteq> set whitespace"
proof -
  have "set (stringReplace s '','' ''.'') \<subseteq> set whitespace \<longleftrightarrow> set s \<subseteq> set whitespace" for s
    by (induction s) (auto simp: stringReplace_def whitespace_def)
  then show
    "isEmptyLine DecimalCommaSorter_prepareStringForConversion line \<longleftrightarrow>
     set (takeWhile (\<lambda>c. c \<in> set (whitespace @ digits @ '',-'')) line) \<subseteq> set whitespace"
    by (simp add: isEmptyLine_def considerStringEmpty_iff
          DecimalCommaSorter_prepareStringForConversion_def stringTakeWhileAdmissable_takeWhile)
  show "isEmptyLine IntegerSorter_prepareStringForConversion line \<longleftrightarrow>
     set (takeWhile (\<lambda>c. c \<in> set (whitespace @ digits @ ''-'')) line) \<subseteq> set whitespace"
    by (simp add: isEmptyLine_def considerStringEmpty_iff
          IntegerSorter_prepareStringForConversion_def stringTakeWhileAdmissable_takeWhile)
  show "isEmptyLine DecimalDotSorter_prepareStringForConversion line \<longleftrightarrow>
     set (takeWhile (\<lambda>c. c \<in> set (whitespace @ digits @ ''.-'')) line) \<subseteq> set whitespace"
    by (simp add: isEmptyLine_def considerStringEmpty_iff
          DecimalDotSorter_prepareStringForConversion_def stringTakeWhileAdmissable_takeWhile)
qed

end
